theory Spec2Isabelle
  imports Complex_Main "HOL-Library.AList"
begin

section \<open>Data model\<close>

text \<open>
  The engine of \<^verbatim>\<open>board_actions.py\<close> and the generator of \<^verbatim>\<open>board/setup.py\<close> work
  on the dictionaries of a \<^verbatim>\<open>BoardData\<close> object. A Python dictionary keeps its keys in
  insertion order, and the order decides which occupant the position index of a cell
  shows, so each dictionary is an association list; \<^verbatim>\<open>d[k] = v\<close> is \<open>AList.update\<close>,
  which overwrites in place or appends.

  A team is identified by its name. A flag and a base are identified by their team. An
  actor object is its immutable attributes; the attribute \<^verbatim>\<open>flag\<close>, the only one the
  engine assigns, is the component \<open>actor_flag\<close> of the board.
\<close>

datatype error = KeyError | IndexError | ZeroDivisionError

type_synonym Team = string

datatype Coordinates = Coordinates (coord_x: int) (coord_y: int)

datatype Flag = Flag (flag_team: Team)

datatype Base = Base (base_team: Team)

datatype Actor = Actor (actor_ident: int) (actor_team: Team) (actor_grab: rat) (actor_attack: rat)

datatype Directions = left | right | down | up

record BoardData =
  map_size :: int
  actors_coordinates :: "(Actor \<times> Coordinates) list"
  flags_coordinates :: "(Flag \<times> Coordinates) list"
  bases_coordinates :: "(Base \<times> Coordinates) list"
  walls_coordinates :: "Coordinates set"
  actor_flag :: "Actor \<Rightarrow> Flag option"

text \<open>\<^verbatim>\<open>d[k]\<close> raises \<^verbatim>\<open>KeyError\<close> on a missing key.\<close>

definition getitem :: "('k \<times> 'v) list \<Rightarrow> 'k \<Rightarrow> error + 'v" where
  "getitem d k = (case map_of d k of None \<Rightarrow> Inl KeyError | Some v \<Rightarrow> Inr v)"

text \<open>
  Modelled from the spec: the module \<^verbatim>\<open>board_data\<close> (class \<^verbatim>\<open>BoardData\<close> with the
  position indexes \<^verbatim>\<open>coordinates_actors\<close>, \<^verbatim>\<open>coordinates_flags\<close>, \<^verbatim>\<open>coordinates_bases\<close>,
  and the range-checked class \<^verbatim>\<open>Coordinates\<close>) is not among the sources. The spec
  describes the indexes as the position-to-occupant direction of the occupant-to-position
  dictionaries; the engine only ever assigns the latter, so an index is the dictionary
  read backwards, \<^verbatim>\<open>{v: k for k, v in d.items()}\<close>: of several occupants of one cell, the
  one latest in the dictionary's order is the one the index shows.
\<close>

definition inverse_dict :: "('k \<times> 'v) list \<Rightarrow> ('v \<times> 'k) list" where
  "inverse_dict d = fold (\<lambda>(k, v) acc. AList.update v k acc) d []"

definition coordinates_actors :: "BoardData \<Rightarrow> Coordinates \<Rightarrow> Actor option" where
  "coordinates_actors s = map_of (inverse_dict (actors_coordinates s))"

definition coordinates_flags :: "BoardData \<Rightarrow> Coordinates \<Rightarrow> Flag option" where
  "coordinates_flags s = map_of (inverse_dict (flags_coordinates s))"

definition coordinates_bases :: "BoardData \<Rightarrow> Coordinates \<Rightarrow> Base option" where
  "coordinates_bases s = map_of (inverse_dict (bases_coordinates s))"

text \<open>
  Modelled from the spec: constructing \<^verbatim>\<open>Coordinates(x=x, y=y)\<close> is rejected unless both
  components lie in \<open>[0, map_size - 1]\<close>.
\<close>

definition valid_coordinates :: "int \<Rightarrow> int \<Rightarrow> int \<Rightarrow> bool" where
  "valid_coordinates n x y \<longleftrightarrow> 0 \<le> x \<and> x \<le> n - 1 \<and> 0 \<le> y \<and> y \<le> n - 1"

text \<open>
  \<^verbatim>\<open>random.choice(xs)\<close> raises \<^verbatim>\<open>IndexError\<close> on an empty list; otherwise the draw
  \<open>k\<close> selects a position of the list.
\<close>

definition random_choice :: "'a list \<Rightarrow> nat \<Rightarrow> error + 'a" where
  "random_choice xs k = (if xs = [] then Inl IndexError else Inr (xs ! (k mod length xs)))"

section \<open>Order resolution engine\<close>

definition calc_target_coordinates :: "BoardData \<Rightarrow> Actor \<Rightarrow> Directions \<Rightarrow> error + Coordinates" where
  "calc_target_coordinates s actor direction =
    (case getitem (actors_coordinates s) actor of
       Inl e \<Rightarrow> Inl e
     | Inr coordinates \<Rightarrow>
         Inr (case direction of
                right \<Rightarrow> Coordinates (min (coord_x coordinates + 1) (map_size s - 1)) (coord_y coordinates)
              | left \<Rightarrow> Coordinates (max (coord_x coordinates - 1) 0) (coord_y coordinates)
              | up \<Rightarrow> Coordinates (coord_x coordinates) (min (coord_y coordinates + 1) (map_size s - 1))
              | down \<Rightarrow> Coordinates (coord_x coordinates) (max (coord_y coordinates - 1) 0)))"

definition try_put_actor :: "BoardData \<Rightarrow> Actor \<Rightarrow> Coordinates \<Rightarrow> error + (bool \<times> BoardData)" where
  "try_put_actor s actor new_coordinates =
    (case getitem (actors_coordinates s) actor of
       Inl e \<Rightarrow> Inl e
     | Inr coordinates \<Rightarrow>
         if coordinates = new_coordinates then Inr (False, s)
         else if coordinates_actors s new_coordinates \<noteq> None then Inr (False, s)
         else if coordinates_bases s new_coordinates \<noteq> None then Inr (False, s)
         else if new_coordinates \<in> walls_coordinates s then Inr (False, s)
         else
           let s1 = s\<lparr>actors_coordinates := AList.update actor new_coordinates (actors_coordinates s)\<rparr>
           in Inr (True,
                case actor_flag s1 actor of
                  None \<Rightarrow> s1
                | Some flag \<Rightarrow> s1\<lparr>flags_coordinates := AList.update flag new_coordinates (flags_coordinates s1)\<rparr>))"

text \<open>
  The loop of \<^verbatim>\<open>_check_score_conditions\<close> over the flags to evaluate; \<open>acc\<close> is the
  variable \<^verbatim>\<open>team_that_scored\<close>, overwritten by every flag that scores. The first
  argument is \<^verbatim>\<open>config["game"]["home_flag_required"]\<close>. The function assigns nothing
  on the board, so it returns the reported team only.
\<close>

fun score_loop :: "bool \<Rightarrow> BoardData \<Rightarrow> Flag list \<Rightarrow> Team option \<Rightarrow> error + Team option" where
  "score_loop hfr s [] acc = Inr acc"
| "score_loop hfr s (flag_to_score # flags) acc =
    (case getitem (flags_coordinates s) flag_to_score of
       Inl e \<Rightarrow> Inl e
     | Inr score_flag_coordinates \<Rightarrow>
         (case coordinates_bases s score_flag_coordinates of
            None \<Rightarrow> score_loop hfr s flags acc
          | Some base_at_flag_coordinates \<Rightarrow>
              if flag_team flag_to_score \<noteq> base_team base_at_flag_coordinates then
                (let scoring_team = base_team base_at_flag_coordinates in
                 case getitem (flags_coordinates s) (Flag scoring_team) of
                   Inl e \<Rightarrow> Inl e
                 | Inr own_flag \<Rightarrow>
                     (case getitem (bases_coordinates s) (Base scoring_team) of
                        Inl e \<Rightarrow> Inl e
                      | Inr own_base \<Rightarrow>
                          if own_flag = own_base \<or> \<not> hfr
                          then score_loop hfr s flags (Some scoring_team)
                          else score_loop hfr s flags acc))
              else score_loop hfr s flags acc))"

text \<open>The local list \<^verbatim>\<open>flags\<close>: the named flag, or the keys of the flag dictionary.\<close>

definition flags_to_score :: "BoardData \<Rightarrow> Flag option \<Rightarrow> Flag list" where
  "flags_to_score s flag_to_score =
    (case flag_to_score of Some flag \<Rightarrow> [flag] | None \<Rightarrow> map fst (flags_coordinates s))"

definition check_score_conditions :: "bool \<Rightarrow> BoardData \<Rightarrow> Flag option \<Rightarrow> error + Team option" where
  "check_score_conditions hfr s flag_to_score = score_loop hfr s (flags_to_score s flag_to_score) None"

text \<open>
  \<^verbatim>\<open>allowed_positions\<close> is a Python set, turned into a list for \<^verbatim>\<open>random.choice\<close>; the
  order of that list is not fixed by the language. The model lists the allowed positions
  in the order of enumeration; whatever the order, every allowed position is selected by
  some draw, and no other position is.
\<close>

definition place_actor_in_area ::
  "BoardData \<Rightarrow> Actor \<Rightarrow> Coordinates list \<Rightarrow> Coordinates set \<Rightarrow> nat \<Rightarrow> error + BoardData" where
  "place_actor_in_area s actor spawn_points forbidden k =
    (let allowed_positions = filter (\<lambda>c. c \<notin> forbidden) (remdups spawn_points)
     in case random_choice allowed_positions k of
          Inl e \<Rightarrow> Inl e
        | Inr target_coordinates \<Rightarrow>
            Inr (s\<lparr>actor_flag := (actor_flag s)(actor := None),
                   actors_coordinates := AList.update actor target_coordinates (actors_coordinates s)\<rparr>))"

text \<open>
  The two local collections of \<^verbatim>\<open>_respawn\<close>. The spawn points are enumerated by the
  function's own loops, \<^verbatim>\<open>range(base.x - 2, base.x + 3)\<close> in both directions, and not by
  \<^verbatim>\<open>_get_area_positions\<close>.
\<close>

definition possible_spawn_points :: "int \<Rightarrow> Coordinates \<Rightarrow> Coordinates list" where
  "possible_spawn_points n base_coordinates =
     [Coordinates x y.
        x \<leftarrow> [coord_x base_coordinates - 2 .. coord_x base_coordinates + 2],
        y \<leftarrow> [coord_y base_coordinates - 2 .. coord_y base_coordinates + 2],
        valid_coordinates n x y]"

definition forbidden_positions :: "BoardData \<Rightarrow> Coordinates set" where
  "forbidden_positions s =
     set (map snd (flags_coordinates s)) \<union> set (map snd (actors_coordinates s))
     \<union> set (map snd (bases_coordinates s)) \<union> walls_coordinates s"

definition respawn :: "BoardData \<Rightarrow> Actor \<Rightarrow> nat \<Rightarrow> error + BoardData" where
  "respawn s actor k =
    (case getitem (bases_coordinates s) (Base (actor_team actor)) of
       Inl e \<Rightarrow> Inl e
     | Inr base_coordinates \<Rightarrow>
         place_actor_in_area s actor
           (possible_spawn_points (map_size s) base_coordinates) (forbidden_positions s) k)"

definition return_flag_to_base :: "BoardData \<Rightarrow> Flag \<Rightarrow> error + BoardData" where
  "return_flag_to_base s flag =
    (case getitem (bases_coordinates s) (Base (flag_team flag)) of
       Inl e \<Rightarrow> Inl e
     | Inr base_coordinates \<Rightarrow>
         Inr (s\<lparr>flags_coordinates := AList.update flag base_coordinates (flags_coordinates s)\<rparr>))"

definition check_flag_return_conditions ::
  "bool \<Rightarrow> BoardData \<Rightarrow> Actor \<Rightarrow> error + (Team option \<times> BoardData)" where
  "check_flag_return_conditions hfr s actor =
    (case getitem (actors_coordinates s) actor of
       Inl e \<Rightarrow> Inl e
     | Inr coordinates \<Rightarrow>
         if coordinates \<in> set (map snd (flags_coordinates s)) then
           (case coordinates_flags s coordinates of
              None \<Rightarrow> Inl KeyError
            | Some flag \<Rightarrow>
                if flag_team flag = actor_team actor then
                  (case return_flag_to_base s flag of
                     Inl e \<Rightarrow> Inl e
                   | Inr s1 \<Rightarrow>
                       (case check_score_conditions hfr s1 None of
                          Inl e \<Rightarrow> Inl e
                        | Inr team_that_scored \<Rightarrow>
                            Inr (team_that_scored,
                                 if actor_flag s1 actor \<noteq> None
                                 then s1\<lparr>actor_flag := (actor_flag s1)(actor := None)\<rparr>
                                 else s1)))
                else Inr (None, s))
         else Inr (None, s))"

definition move ::
  "bool \<Rightarrow> BoardData \<Rightarrow> Actor \<Rightarrow> Directions \<Rightarrow> error + ((bool \<times> Team option) \<times> BoardData)" where
  "move hfr s actor direction =
    (case calc_target_coordinates s actor direction of
       Inl e \<Rightarrow> Inl e
     | Inr new_coordinates \<Rightarrow>
         (case try_put_actor s actor new_coordinates of
            Inl e \<Rightarrow> Inl e
          | Inr (moved, s1) \<Rightarrow>
              if moved then
                (case check_flag_return_conditions hfr s1 actor of
                   Inl e \<Rightarrow> Inl e
                 | Inr (team_that_scored, s2) \<Rightarrow> Inr ((moved, team_that_scored), s2))
              else Inr ((moved, None), s1)))"

text \<open>
  \<open>r\<close> is the value of \<^verbatim>\<open>random.random()\<close>, a number in \<open>[0, 1)\<close>; \<open>k\<close> is the draw of
  the \<^verbatim>\<open>random.choice\<close> inside the respawn.
\<close>

definition attack :: "BoardData \<Rightarrow> Actor \<Rightarrow> Directions \<Rightarrow> rat \<Rightarrow> nat \<Rightarrow> error + (bool \<times> BoardData)" where
  "attack s actor direction r k =
    (if actor_attack actor = 0 then Inr (False, s)
     else
       (case calc_target_coordinates s actor direction of
          Inl e \<Rightarrow> Inl e
        | Inr target_coordinates \<Rightarrow>
            (case coordinates_actors s target_coordinates of
               None \<Rightarrow> Inr (False, s)
             | Some target \<Rightarrow>
                 if \<not> r < actor_attack actor then Inr (False, s)
                 else (case respawn s target k of Inl e \<Rightarrow> Inl e | Inr s1 \<Rightarrow> Inr (True, s1)))))"

definition grabput_flag ::
  "bool \<Rightarrow> BoardData \<Rightarrow> Actor \<Rightarrow> Directions \<Rightarrow> rat \<Rightarrow> error + ((bool \<times> Team option) \<times> BoardData)" where
  "grabput_flag hfr s actor direction r =
    (case calc_target_coordinates s actor direction of
       Inl e \<Rightarrow> Inl e
     | Inr target_coordinates \<Rightarrow>
         let grab_successful = r < actor_grab actor;
             target_actor = coordinates_actors s target_coordinates
         in
         (case actor_flag s actor of
           Some flag \<Rightarrow>
             (case target_actor of
                Some ta \<Rightarrow>
                  if actor_grab ta = 0 then Inr ((False, None), s)
                  else if actor_flag s ta \<noteq> None then Inr ((False, None), s)
                  else
                    (let s1 = s\<lparr>flags_coordinates := AList.update flag target_coordinates (flags_coordinates s),
                                 actor_flag := ((actor_flag s)(actor := None))(ta := Some flag)\<rparr>
                     in case check_flag_return_conditions hfr s1 ta of
                          Inl e \<Rightarrow> Inl e
                        | Inr (team_that_scored, s2) \<Rightarrow> Inr ((True, team_that_scored), s2))
              | None \<Rightarrow>
                  if target_coordinates \<in> walls_coordinates s then Inr ((False, None), s)
                  else
                    (let s1 = s\<lparr>flags_coordinates := AList.update flag target_coordinates (flags_coordinates s),
                                 actor_flag := (actor_flag s)(actor := None)\<rparr>
                     in case check_score_conditions hfr s1 (Some flag) of
                          Inl e \<Rightarrow> Inl e
                        | Inr team_that_scored \<Rightarrow> Inr ((True, team_that_scored), s1)))
         | None \<Rightarrow>
             (case coordinates_flags s target_coordinates of
                None \<Rightarrow> Inr ((False, None), s)
              | Some flag \<Rightarrow>
                  if grab_successful then
                    (case getitem (actors_coordinates s) actor of
                       Inl e \<Rightarrow> Inl e
                     | Inr own_coordinates \<Rightarrow>
                         let s1 = s\<lparr>flags_coordinates := AList.update flag own_coordinates (flags_coordinates s),
                                     actor_flag := (actor_flag s)(actor := Some flag)\<rparr>;
                             s2 = (case target_actor of
                                     None \<Rightarrow> s1
                                   | Some ta \<Rightarrow> s1\<lparr>actor_flag := (actor_flag s1)(ta := None)\<rparr>)
                         in (case check_flag_return_conditions hfr s2 actor of
                               Inl e \<Rightarrow> Inl e
                             | Inr (team_that_scored, s3) \<Rightarrow> Inr ((True, team_that_scored), s3)))
                  else Inr ((False, None), s))))"

section \<open>Map generator\<close>

text \<open>
  \<^verbatim>\<open>_get_area_positions\<close>: the window \<open>[center.x - distance, center.x + distance)\<close>
  by \<open>[center.y - distance, center.y + distance)\<close>, without the coordinates whose
  construction is rejected. \<open>n\<close> is the map size.
\<close>

definition get_area_positions :: "int \<Rightarrow> Coordinates \<Rightarrow> int \<Rightarrow> Coordinates list" where
  "get_area_positions n center distance =
     [Coordinates x y.
        x \<leftarrow> [coord_x center - distance .. coord_x center + distance - 1],
        y \<leftarrow> [coord_y center - distance .. coord_y center + distance - 1],
        valid_coordinates n x y]"

text \<open>The initial value of \<^verbatim>\<open>available_places\<close>, also assigned when the pool is reset.\<close>

definition interior :: "int \<Rightarrow> Coordinates list" where
  "interior n = [Coordinates i j. i \<leftarrow> [2 .. n - 3], j \<leftarrow> [2 .. n - 3]]"

text \<open>
  \<^verbatim>\<open>int((map_size**2 / len(teams)) ** 0.5 / 1.2) - 1\<close>, with the floating-point
  operations read as operations on real numbers; \<^verbatim>\<open>int\<close> truncates a non-negative
  number to its floor. The rounding of double precision is not part of the model: where
  the real quotient is an integer, the rounded one can fall just below it and the value
  of the source be smaller by one.
\<close>

definition minimum_distance :: "int \<Rightarrow> nat \<Rightarrow> int" where
  "minimum_distance n t = \<lfloor>sqrt (real_of_int (n\<^sup>2) / real t) / (12 / 10)\<rfloor> - 1"

text \<open>
  The \<^verbatim>\<open>while\<close> loop of \<^verbatim>\<open>_place_bases_and_flags\<close>. It need not terminate, so the
  result is an option and \<open>None\<close> stands for a run that never leaves the loop. \<open>draws\<close>
  is the sequence of values that the successive calls of \<^verbatim>\<open>random.choice\<close> select
  with, \<open>k\<close> the number of calls made so far. The last component, \<open>resets\<close>, is not a
  variable of the program: it counts how often the branch that resets the pool has
  run.
\<close>

partial_function (option) place_loop ::
  "int \<Rightarrow> int \<Rightarrow> Team list \<Rightarrow> (nat \<Rightarrow> nat) \<Rightarrow> nat \<Rightarrow> nat \<Rightarrow> Coordinates list
     \<Rightarrow> (Base \<times> Coordinates) list \<Rightarrow> (Flag \<times> Coordinates) list \<Rightarrow> nat
     \<Rightarrow> ((Base \<times> Coordinates) list \<times> (Flag \<times> Coordinates) list \<times> nat) option" where
  "place_loop n d teams draws i k available_places bases flags resets =
    (if i < length teams then
       (if available_places = []
        then place_loop n d teams draws 0 k (interior n) bases flags (Suc resets)
        else
          place_loop n d teams draws (Suc i) (Suc k)
            (filter (\<lambda>p. p \<notin> set (get_area_positions n
                       (available_places ! (draws k mod length available_places)) d))
               available_places)
            (AList.update (Base (teams ! i))
               (available_places ! (draws k mod length available_places)) bases)
            (AList.update (Flag (teams ! i))
               (available_places ! (draws k mod length available_places)) flags)
            resets)
     else Some (bases, flags, resets))"

text \<open>
  \<^verbatim>\<open>_place_bases_and_flags\<close> on the board \<open>s\<close>. With no team the division in the
  minimum distance raises \<^verbatim>\<open>ZeroDivisionError\<close>. The result pairs the board with the
  number of resets.
\<close>

definition place_bases_and_flags ::
  "int \<Rightarrow> Team list \<Rightarrow> (nat \<Rightarrow> nat) \<Rightarrow> BoardData \<Rightarrow> (error + BoardData \<times> nat) option" where
  "place_bases_and_flags n teams draws s =
    (if teams = [] then Some (Inl ZeroDivisionError)
     else
       (case place_loop n (minimum_distance n (length teams)) teams draws 0 0 (interior n)
               (bases_coordinates s) (flags_coordinates s) 0 of
          None \<Rightarrow> None
        | Some (bases, flags, resets) \<Rightarrow>
            Some (Inr (s\<lparr>bases_coordinates := bases, flags_coordinates := flags\<rparr>, resets))))"


text \<open>
  Two cells are \<open>apart d\<close> when they differ by \<open>d\<close> or more in one of the directions;
  a cell outside the window of \<^verbatim>\<open>_get_area_positions\<close> around another is apart from it.
\<close>

definition apart :: "int \<Rightarrow> Coordinates \<Rightarrow> Coordinates \<Rightarrow> bool" where
  "apart d c e \<longleftrightarrow> d \<le> \<bar>coord_x c - coord_x e\<bar> \<or> d \<le> \<bar>coord_y c - coord_y e\<bar>"

text \<open>Team \<open>t\<close> has a base, and its flag is on the cell of the base.\<close>

definition paired :: "(Base \<times> Coordinates) list \<Rightarrow> (Flag \<times> Coordinates) list \<Rightarrow> Team \<Rightarrow> bool" where
  "paired bases flags t \<longleftrightarrow>
     map_of bases (Base t) \<noteq> None \<and> map_of bases (Base t) = map_of flags (Flag t)"

text \<open>
  The invariant of a run without reset: the cells of the pool are on the board, the
  bases of the teams \<open>ts\<close> placed so far are apart from every cell of the pool, and the
  bases of two different teams of \<open>ts\<close> are apart from each other.
\<close>

definition spaced ::
  "int \<Rightarrow> int \<Rightarrow> Team list \<Rightarrow> Coordinates list \<Rightarrow> (Base \<times> Coordinates) list \<Rightarrow> bool" where
  "spaced n d ts pool bases \<longleftrightarrow>
     (\<forall>q\<in>set pool. valid_coordinates n (coord_x q) (coord_y q)) \<and>
     (\<forall>t\<in>set ts. \<forall>c. map_of bases (Base t) = Some c \<longrightarrow> (\<forall>q\<in>set pool. apart d c q)) \<and>
     (\<forall>t\<in>set ts. \<forall>u\<in>set ts. t \<noteq> u \<longrightarrow>
        (\<forall>c e. map_of bases (Base t) = Some c \<and> map_of bases (Base u) = Some e \<longrightarrow> apart d c e))"

text \<open>
  What a run of the loop from the state \<open>(i, pool, bases, flags, resets)\<close> guarantees of
  its result \<open>y\<close>: the count of resets does not decrease; if the teams before \<open>i\<close> are
  paired, all teams are paired in the result; and if the count of resets of the result
  is 0 and the state is spaced, the bases of the result are spaced.
\<close>

definition loop_post ::
  "int \<Rightarrow> int \<Rightarrow> Team list \<Rightarrow> nat \<Rightarrow> Coordinates list \<Rightarrow> (Base \<times> Coordinates) list
     \<Rightarrow> (Flag \<times> Coordinates) list \<Rightarrow> nat
     \<Rightarrow> (Base \<times> Coordinates) list \<times> (Flag \<times> Coordinates) list \<times> nat \<Rightarrow> bool" where
  "loop_post n d teams i pool bases flags resets y \<longleftrightarrow>
     resets \<le> snd (snd y) \<and>
     ((\<forall>t\<in>set (take i teams). paired bases flags t) \<longrightarrow>
        (\<forall>t\<in>set teams. paired (fst y) (fst (snd y)) t)) \<and>
     (snd (snd y) = 0 \<and> spaced n d (take i teams) pool bases \<longrightarrow> spaced n d teams [] (fst y))"

section \<open>Well-formed boards\<close>

text \<open>
  A team that has a flag has a base and the other way round (the spec's invariant that
  every team has exactly one base and one flag), and a flag that an actor carries is one
  of the flags of the board. On such boards no dictionary access of the engine fails.
\<close>

definition teams_complete :: "BoardData \<Rightarrow> bool" where
  "teams_complete s \<longleftrightarrow>
     flag_team ` fst ` set (flags_coordinates s) = base_team ` fst ` set (bases_coordinates s)"

definition carried_on_board :: "BoardData \<Rightarrow> Actor \<Rightarrow> bool" where
  "carried_on_board s actor \<longleftrightarrow>
     (case actor_flag s actor of None \<Rightarrow> True | Some flag \<Rightarrow> map_of (flags_coordinates s) flag \<noteq> None)"

text \<open>
  The scoring condition in the words of the spec: the flag rests on the base of team
  \<open>t\<close>, \<open>t\<close> is not the flag's owner, and home-flag-required is disabled or the flag of
  \<open>t\<close> is exactly at the base of \<open>t\<close>.
\<close>

definition scores_for :: "bool \<Rightarrow> BoardData \<Rightarrow> Flag \<Rightarrow> Team \<Rightarrow> bool" where
  "scores_for hfr s flag t \<longleftrightarrow>
     map_of (flags_coordinates s) flag \<noteq> None
     \<and> map_of (flags_coordinates s) flag = map_of (bases_coordinates s) (Base t)
     \<and> flag_team flag \<noteq> t
     \<and> (\<not> hfr \<or> map_of (flags_coordinates s) (Flag t) = map_of (bases_coordinates s) (Base t))"

text \<open>
  The invariant of the spec: at most one actor occupies a cell, that is, two entries of
  the actor dictionary with equal coordinates are entries of the same actor.
\<close>

definition one_actor_per_cell :: "BoardData \<Rightarrow> bool" where
  "one_actor_per_cell s \<longleftrightarrow>
     (\<forall>p\<in>set (actors_coordinates s). \<forall>q\<in>set (actors_coordinates s). snd p = snd q \<longrightarrow> fst p = fst q)"

section \<open>Example boards\<close>

text \<open>
  Two teams on a 10 x 10 board, bases at \<open>(2, 2)\<close> and \<open>(7, 7)\<close>, one actor each
  with grab and attack probability 1.
\<close>

definition actor_a :: Actor where
  "actor_a = Actor 0 ''A'' 1 1"

definition actor_b :: Actor where
  "actor_b = Actor 0 ''B'' 1 1"

text \<open>Actor \<open>actor_a\<close> carries the flag of team B across the field.\<close>

definition carrier_board :: BoardData where
  "carrier_board =
    \<lparr>map_size = 10,
     actors_coordinates = [(actor_a, Coordinates 4 4), (actor_b, Coordinates 6 7)],
     flags_coordinates = [(Flag ''A'', Coordinates 2 2), (Flag ''B'', Coordinates 4 4)],
     bases_coordinates = [(Base ''A'', Coordinates 2 2), (Base ''B'', Coordinates 7 7)],
     walls_coordinates = {Coordinates 4 5},
     actor_flag = Map.empty(actor_a := Some (Flag ''B''))\<rparr>"

text \<open>
  Actor \<open>actor_a\<close> stands on the resting flag of team B and has grabbed the flag of its
  own team from a neighbouring cell: the index shows the flag of team B on its cell, so
  the own flag was not sent home and the actor carries it.
\<close>

definition own_flag_board :: BoardData where
  "own_flag_board =
    \<lparr>map_size = 10,
     actors_coordinates = [(actor_a, Coordinates 4 4), (actor_b, Coordinates 6 7)],
     flags_coordinates = [(Flag ''A'', Coordinates 4 4), (Flag ''B'', Coordinates 4 4)],
     bases_coordinates = [(Base ''A'', Coordinates 2 2), (Base ''B'', Coordinates 7 7)],
     walls_coordinates = {},
     actor_flag = Map.empty(actor_a := Some (Flag ''A''))\<rparr>"

text \<open>Each flag rests on the base of the other team.\<close>

definition swapped_board :: BoardData where
  "swapped_board =
    \<lparr>map_size = 10,
     actors_coordinates = [(actor_a, Coordinates 4 4), (actor_b, Coordinates 6 7)],
     flags_coordinates = [(Flag ''A'', Coordinates 7 7), (Flag ''B'', Coordinates 2 2)],
     bases_coordinates = [(Base ''A'', Coordinates 2 2), (Base ''B'', Coordinates 7 7)],
     walls_coordinates = {},
     actor_flag = Map.empty\<rparr>"

text \<open>
  The flag of team B rests on the base of team A, whose own flag lies in the field on
  the cell of \<open>actor_a\<close>.
\<close>

definition pending_board :: BoardData where
  "pending_board =
    \<lparr>map_size = 10,
     actors_coordinates = [(actor_a, Coordinates 4 4), (actor_b, Coordinates 6 7)],
     flags_coordinates = [(Flag ''A'', Coordinates 4 4), (Flag ''B'', Coordinates 2 2)],
     bases_coordinates = [(Base ''A'', Coordinates 2 2), (Base ''B'', Coordinates 7 7)],
     walls_coordinates = {},
     actor_flag = Map.empty\<rparr>"

text \<open>The flag of team B rests on the base of team A, whose own flag is at home.\<close>

definition scoring_board :: BoardData where
  "scoring_board =
    \<lparr>map_size = 10,
     actors_coordinates = [(actor_a, Coordinates 4 4), (actor_b, Coordinates 6 7)],
     flags_coordinates = [(Flag ''A'', Coordinates 2 2), (Flag ''B'', Coordinates 2 2)],
     bases_coordinates = [(Base ''A'', Coordinates 2 2), (Base ''B'', Coordinates 7 7)],
     walls_coordinates = {},
     actor_flag = Map.empty\<rparr>"

text \<open>
  Actor \<open>actor_a\<close> carries the flag of team B and stands beside the cell \<open>(5, 4)\<close>, on
  which the flag of its own team rests.
\<close>

definition stack_board :: BoardData where
  "stack_board =
    \<lparr>map_size = 10,
     actors_coordinates = [(actor_a, Coordinates 4 4), (actor_b, Coordinates 6 7)],
     flags_coordinates = [(Flag ''B'', Coordinates 4 4), (Flag ''A'', Coordinates 5 4)],
     bases_coordinates = [(Base ''B'', Coordinates 7 7), (Base ''A'', Coordinates 2 2)],
     walls_coordinates = {},
     actor_flag = Map.empty(actor_a := Some (Flag ''B''))\<rparr>"

text \<open>
  Three teams. Actor \<open>actor_b\<close> carries the flag of team C and has stepped on the cell
  \<open>(5, 4)\<close>, where the flag of team A rests; \<open>actor_a\<close> stands beside it with empty
  hands.
\<close>

definition snatch_board :: BoardData where
  "snatch_board =
    \<lparr>map_size = 10,
     actors_coordinates = [(actor_b, Coordinates 5 4), (actor_a, Coordinates 4 4)],
     flags_coordinates =
       [(Flag ''B'', Coordinates 7 7), (Flag ''C'', Coordinates 5 4), (Flag ''A'', Coordinates 5 4)],
     bases_coordinates =
       [(Base ''B'', Coordinates 7 7), (Base ''C'', Coordinates 2 7), (Base ''A'', Coordinates 2 2)],
     walls_coordinates = {},
     actor_flag = Map.empty(actor_b := Some (Flag ''C''))\<rparr>"

text \<open>Nobody carries a flag; the flag of team B rests in the field at \<open>(5, 4)\<close>.\<close>

definition loose_board :: BoardData where
  "loose_board =
    \<lparr>map_size = 10,
     actors_coordinates = [(actor_a, Coordinates 4 4), (actor_b, Coordinates 6 7)],
     flags_coordinates = [(Flag ''A'', Coordinates 2 2), (Flag ''B'', Coordinates 5 4)],
     bases_coordinates = [(Base ''A'', Coordinates 2 2), (Base ''B'', Coordinates 7 7)],
     walls_coordinates = {},
     actor_flag = Map.empty\<rparr>"

text \<open>A board before map generation: no team has been placed.\<close>

definition empty_board :: BoardData where
  "empty_board =
    \<lparr>map_size = 10, actors_coordinates = [], flags_coordinates = [], bases_coordinates = [],
     walls_coordinates = {}, actor_flag = Map.empty\<rparr>"

text \<open>
  Three flags have been put on the cell \<open>(4, 4)\<close>, the flag of team A between the two
  others in the order of the flag dictionary, and \<open>actor_a\<close> of team A has stepped on
  the cell. Whether a position index shows the first or the last flag of a cell, it does
  not show the flag of team A.
\<close>

definition pile_board :: BoardData where
  "pile_board =
    \<lparr>map_size = 10,
     actors_coordinates = [(actor_b, Coordinates 6 7), (actor_a, Coordinates 4 4)],
     flags_coordinates =
       [(Flag ''B'', Coordinates 4 4), (Flag ''A'', Coordinates 4 4), (Flag ''C'', Coordinates 4 4)],
     bases_coordinates =
       [(Base ''B'', Coordinates 7 7), (Base ''A'', Coordinates 2 2), (Base ''C'', Coordinates 2 7)],
     walls_coordinates = {},
     actor_flag = Map.empty\<rparr>"

text \<open>
  The flag of team A lies alone in the field at \<open>(5, 4)\<close>, beside \<open>actor_a\<close> of team A;
  no cell holds more than one flag.
\<close>

definition stray_board :: BoardData where
  "stray_board =
    \<lparr>map_size = 10,
     actors_coordinates = [(actor_a, Coordinates 4 4), (actor_b, Coordinates 6 7)],
     flags_coordinates = [(Flag ''A'', Coordinates 5 4), (Flag ''B'', Coordinates 7 7)],
     bases_coordinates = [(Base ''A'', Coordinates 2 2), (Base ''B'', Coordinates 7 7)],
     walls_coordinates = {},
     actor_flag = Map.empty\<rparr>"



text \<open>
  Three teams. Actor \<open>actor_b\<close> carries the flag of team C on the cell \<open>(5, 4)\<close>, beside
  \<open>actor_a\<close>; no cell holds more than one flag.
\<close>

definition robbery_board :: BoardData where
  "robbery_board =
    \<lparr>map_size = 10,
     actors_coordinates = [(actor_a, Coordinates 4 4), (actor_b, Coordinates 5 4)],
     flags_coordinates =
       [(Flag ''A'', Coordinates 2 2), (Flag ''B'', Coordinates 7 7), (Flag ''C'', Coordinates 5 4)],
     bases_coordinates =
       [(Base ''A'', Coordinates 2 2), (Base ''B'', Coordinates 7 7), (Base ''C'', Coordinates 2 7)],
     walls_coordinates = {},
     actor_flag = Map.empty(actor_b := Some (Flag ''C''))\<rparr>"

lemma map_of_fold_update_None:
  "map_of (fold (\<lambda>(k, v) acc. AList.update v k acc) d acc) c = None
     \<longleftrightarrow> c \<notin> snd ` set d \<and> map_of acc c = None"
  by (induction d arbitrary: acc) (auto simp: update_conv' split: if_splits)

lemma map_of_fold_update_Some:
  "map_of (fold (\<lambda>(k, v) acc. AList.update v k acc) d acc) c = Some k
     \<Longrightarrow> (k, c) \<in> set d \<or> map_of acc c = Some k"
proof (induction d arbitrary: acc)
  case Nil
  then show ?case by simp
next
  case (Cons p d)
  obtain a b where p: "p = (a, b)" by (cases p)
  from Cons.prems
  have "map_of (fold (\<lambda>(k, v) acc. AList.update v k acc) d (AList.update b a acc)) c = Some k"
    by (simp add: p)
  from Cons.IH [OF this] show ?case
    by (auto simp: p update_conv' split: if_splits)
qed

lemma inverse_dict_None: "map_of (inverse_dict d) c = None \<longleftrightarrow> c \<notin> snd ` set d"
  by (simp add: inverse_dict_def map_of_fold_update_None)

lemma inverse_dict_Some: "map_of (inverse_dict d) c = Some k \<Longrightarrow> (k, c) \<in> set d"
  using map_of_fold_update_Some [of d "[]" c k] by (simp add: inverse_dict_def)

lemma getitem_Inr [simp]: "getitem d k = Inr v \<longleftrightarrow> map_of d k = Some v"
  by (simp add: getitem_def split: option.splits)

lemma getitem_Inl [simp]: "getitem d k = Inl e \<longleftrightarrow> map_of d k = None \<and> e = KeyError"
  by (auto simp add: getitem_def split: option.splits)

lemma try_put_actor_result:
  assumes "map_of (actors_coordinates s) actor = Some cur"
  shows "try_put_actor s actor tgt =
     (if tgt \<noteq> cur \<and> tgt \<notin> snd ` set (actors_coordinates s) \<and> tgt \<notin> snd ` set (bases_coordinates s)
          \<and> tgt \<notin> walls_coordinates s
      then Inr (True, (case actor_flag s actor of None \<Rightarrow> s\<lparr>actors_coordinates := AList.update actor tgt (actors_coordinates s)\<rparr>
                   | Some flag \<Rightarrow> s\<lparr>actors_coordinates := AList.update actor tgt (actors_coordinates s),
                       flags_coordinates := AList.update flag tgt (flags_coordinates s)\<rparr>))
      else Inr (False, s))"
  using assms
  by (auto simp: try_put_actor_def getitem_def coordinates_actors_def coordinates_bases_def
      inverse_dict_None Let_def split: option.splits)

lemma flag_collapse [simp]: "flag_team f = t \<longleftrightarrow> f = Flag t"
  by (cases f) auto

lemma base_collapse [simp]: "base_team b = t \<longleftrightarrow> b = Base t"
  by (cases b) auto

lemma map_of_keys: "map_of d k \<noteq> None \<longleftrightarrow> k \<in> fst ` set d"
  by (simp add: map_of_eq_None_iff)

lemma flag_key_iff: "Flag t \<in> F \<longleftrightarrow> t \<in> flag_team ` F"
  by (force simp: image_iff)

lemma base_key_iff: "Base t \<in> B \<longleftrightarrow> t \<in> base_team ` B"
  by (force simp: image_iff)

lemma teams_complete_base:
  "teams_complete s \<Longrightarrow>
     Flag t \<in> fst ` set (flags_coordinates s) \<longleftrightarrow> Base t \<in> fst ` set (bases_coordinates s)"
  unfolding teams_complete_def flag_key_iff base_key_iff by simp

lemma score_loop_total:
  "teams_complete s \<Longrightarrow> set fl \<subseteq> fst ` set (flags_coordinates s)
     \<Longrightarrow> \<exists>t. score_loop hfr s fl acc = Inr t"
proof (induction fl arbitrary: acc)
  case Nil
  then show ?case by simp
next
  case (Cons f fl)
  from Cons.prems obtain c where c: "map_of (flags_coordinates s) f = Some c"
    using map_of_keys [of "flags_coordinates s" f] by auto
  have rest: "\<exists>t. score_loop hfr s fl acc' = Inr t" for acc'
    using Cons.IH [of acc'] Cons.prems by simp
  show ?case
  proof (cases "coordinates_bases s c")
    case None
    then show ?thesis using c rest by (simp add: getitem_def)
  next
    case (Some b)
    then have "(b, c) \<in> set (bases_coordinates s)"
      by (simp add: coordinates_bases_def inverse_dict_Some)
    then have bk: "Base (base_team b) \<in> fst ` set (bases_coordinates s)"
      by force
    then have fk: "Flag (base_team b) \<in> fst ` set (flags_coordinates s)"
      using teams_complete_base [OF Cons.prems(1)] by simp
    from bk obtain bc where bc: "map_of (bases_coordinates s) (Base (base_team b)) = Some bc"
      using map_of_keys [of "bases_coordinates s"] by auto
    from fk obtain fc where fc: "map_of (flags_coordinates s) (Flag (base_team b)) = Some fc"
      using map_of_keys [of "flags_coordinates s"] by auto
    show ?thesis using c Some bc fc rest [of acc] rest [of "Some (base_team b)"]
      by (auto simp: getitem_def Let_def)
  qed
qed

lemma check_score_conditions_total:
  "teams_complete s \<Longrightarrow> (\<And>f. fo = Some f \<Longrightarrow> f \<in> fst ` set (flags_coordinates s))
     \<Longrightarrow> \<exists>t. check_score_conditions hfr s fo = Inr t"
  unfolding check_score_conditions_def
  by (rule score_loop_total) (auto simp: flags_to_score_def split: option.splits)

lemma teams_complete_flags_update:
  "f \<in> fst ` set (flags_coordinates s) \<Longrightarrow>
     teams_complete (s\<lparr>flags_coordinates := AList.update f c (flags_coordinates s)\<rparr>) = teams_complete s"
  by (simp add: teams_complete_def dom_update insert_absorb)

lemma teams_complete_other [simp]:
  "teams_complete (s\<lparr>actors_coordinates := ac\<rparr>) = teams_complete s"
  "teams_complete (s\<lparr>actor_flag := af\<rparr>) = teams_complete s"
  by (simp_all add: teams_complete_def)

text \<open>flag return, as a function of the index at the actor's cell\<close>

lemma check_flag_return_conditions_eq:
  assumes "map_of (actors_coordinates s) actor = Some c"
  shows "check_flag_return_conditions hfr s actor =
    (if coordinates_flags s c = Some (Flag (actor_team actor)) then
       (case map_of (bases_coordinates s) (Base (actor_team actor)) of
          None \<Rightarrow> Inl KeyError
        | Some bc \<Rightarrow>
            (case check_score_conditions hfr
                    (s\<lparr>flags_coordinates := AList.update (Flag (actor_team actor)) bc (flags_coordinates s)\<rparr>) None of
               Inl e \<Rightarrow> Inl e
             | Inr t \<Rightarrow>
                 Inr (t, s\<lparr>flags_coordinates := AList.update (Flag (actor_team actor)) bc (flags_coordinates s),
                           actor_flag := (actor_flag s)(actor := None)\<rparr>)))
     else Inr (None, s))"
proof (cases "coordinates_flags s c")
  case None
  then have "c \<notin> snd ` set (flags_coordinates s)"
    by (simp add: coordinates_flags_def inverse_dict_None)
  then show ?thesis using assms None
    by (simp add: check_flag_return_conditions_def getitem_def)
next
  case (Some flag)
  then have "c \<in> snd ` set (flags_coordinates s)"
    using inverse_dict_None [of "flags_coordinates s" c] by (simp add: coordinates_flags_def)
  then show ?thesis using assms Some
    by (auto simp: check_flag_return_conditions_def getitem_def return_flag_to_base_def
        fun_upd_idem split: option.splits sum.splits)
qed

lemma calc_target_coordinates_total:
  "map_of (actors_coordinates s) actor = Some cur \<Longrightarrow>
     \<exists>tgt. calc_target_coordinates s actor direction = Inr tgt"
  by (simp add: calc_target_coordinates_def getitem_def)

lemma check_flag_return_conditions_total:
  assumes tc: "teams_complete s" and c: "map_of (actors_coordinates s) actor = Some c"
  shows "\<exists>t s'. check_flag_return_conditions hfr s actor = Inr (t, s')"
proof (cases "coordinates_flags s c = Some (Flag (actor_team actor))")
  case False
  then show ?thesis by (simp add: check_flag_return_conditions_eq [OF c])
next
  case True
  then have "(Flag (actor_team actor), c) \<in> set (flags_coordinates s)"
    by (simp add: coordinates_flags_def inverse_dict_Some)
  then have fk: "Flag (actor_team actor) \<in> fst ` set (flags_coordinates s)"
    by force
  then have "Base (actor_team actor) \<in> fst ` set (bases_coordinates s)"
    using teams_complete_base [OF tc] by simp
  then obtain bc where bc: "map_of (bases_coordinates s) (Base (actor_team actor)) = Some bc"
    using map_of_keys [of "bases_coordinates s"] by auto
  have "teams_complete (s\<lparr>flags_coordinates := AList.update (Flag (actor_team actor)) bc (flags_coordinates s)\<rparr>)"
    using tc fk by (simp add: teams_complete_flags_update)
  from check_score_conditions_total [OF this, of None hfr]
  obtain t where "check_score_conditions hfr
      (s\<lparr>flags_coordinates := AList.update (Flag (actor_team actor)) bc (flags_coordinates s)\<rparr>) None = Inr t"
    by auto
  then show ?thesis using True bc
    by (simp add: check_flag_return_conditions_eq [OF c])
qed

lemma check_flag_return_conditions_frame:
  assumes c: "map_of (actors_coordinates s) actor = Some c"
    and r: "check_flag_return_conditions hfr s actor = Inr (t, s')"
  shows "actors_coordinates s' = actors_coordinates s"
    and "bases_coordinates s' = bases_coordinates s"
    and "walls_coordinates s' = walls_coordinates s"
    and "map_size s' = map_size s"
    and "g \<noteq> Flag (actor_team actor) \<Longrightarrow> map_of (flags_coordinates s') g = map_of (flags_coordinates s) g"
    and "map_of (flags_coordinates s') (Flag (actor_team actor)) = map_of (flags_coordinates s) (Flag (actor_team actor))
         \<or> map_of (flags_coordinates s') (Flag (actor_team actor)) = map_of (bases_coordinates s) (Base (actor_team actor))"
    and "b \<noteq> actor \<Longrightarrow> actor_flag s' b = actor_flag s b"
  using r unfolding check_flag_return_conditions_eq [OF c]
  by (auto simp: update_conv' split: if_splits option.splits sum.splits)

text \<open>
  Claim C1, as the code has it. On a board whose actor dictionary has \<open>actor\<close> at
  \<open>cur\<close>, \<^verbatim>\<open>move\<close> returns; it reports \<open>moved\<close> exactly when the clamped target differs
  from \<open>cur\<close>, no other actor is on it, and it is neither a base nor a wall. When it
  reports \<open>moved = False\<close> the board is unchanged and no team is reported. When it
  reports \<open>moved = True\<close> the actor is on the target, and a carried flag of another
  team is on the target too; a carried flag of the actor's own team is on the target
  or, when the flag-return check that ends the move fires, on its base.
\<close>

theorem move_relocates:
  assumes keys: "distinct (map fst (actors_coordinates s))"
    and cur: "map_of (actors_coordinates s) actor = Some cur"
    and tc: "teams_complete s"
    and cb: "carried_on_board s actor"
  shows "\<exists>tgt moved scored s'.
      calc_target_coordinates s actor direction = Inr tgt \<and>
      move hfr s actor direction = Inr ((moved, scored), s') \<and>
      (moved \<longleftrightarrow> tgt \<noteq> cur
          \<and> (\<forall>b c. (b, c) \<in> set (actors_coordinates s) \<and> b \<noteq> actor \<longrightarrow> c \<noteq> tgt)
          \<and> tgt \<notin> snd ` set (bases_coordinates s) \<and> tgt \<notin> walls_coordinates s) \<and>
      (\<not> moved \<longrightarrow> s' = s \<and> scored = None) \<and>
      (moved \<longrightarrow> map_of (actors_coordinates s') actor = Some tgt \<and>
         (\<forall>flag. actor_flag s actor = Some flag \<longrightarrow>
            (if flag_team flag \<noteq> actor_team actor
             then map_of (flags_coordinates s') flag = Some tgt
             else map_of (flags_coordinates s') flag = Some tgt
                \<or> map_of (flags_coordinates s') flag = map_of (bases_coordinates s) (Base (actor_team actor)))))"
proof -
  obtain tgt where tgt: "calc_target_coordinates s actor direction = Inr tgt"
    using calc_target_coordinates_total [OF cur] by blast
  let ?free = "tgt \<noteq> cur \<and> tgt \<notin> snd ` set (actors_coordinates s)
      \<and> tgt \<notin> snd ` set (bases_coordinates s) \<and> tgt \<notin> walls_coordinates s"
  have own: "c = cur" if "(actor, c) \<in> set (actors_coordinates s)" for c
    using keys cur that by auto
  have occupied: "tgt \<noteq> cur \<Longrightarrow> tgt \<notin> snd ` set (actors_coordinates s) \<longleftrightarrow>
      (\<forall>b c. (b, c) \<in> set (actors_coordinates s) \<and> b \<noteq> actor \<longrightarrow> c \<noteq> tgt)"
    using own by force
  show ?thesis
  proof (cases ?free)
    case False
    then have "move hfr s actor direction = Inr ((False, None), s)"
      using tgt by (auto simp: move_def try_put_actor_result [OF cur])
    then show ?thesis using tgt False occupied by (intro exI [of _ tgt] exI [of _ False]) auto
  next
    case True
    define s1 where "s1 = (case actor_flag s actor of
        None \<Rightarrow> s\<lparr>actors_coordinates := AList.update actor tgt (actors_coordinates s)\<rparr>
      | Some flag \<Rightarrow> s\<lparr>actors_coordinates := AList.update actor tgt (actors_coordinates s),
                       flags_coordinates := AList.update flag tgt (flags_coordinates s)\<rparr>)"
    have put: "try_put_actor s actor tgt = Inr (True, s1)"
      using True by (simp add: try_put_actor_result [OF cur] s1_def)
    have at1: "map_of (actors_coordinates s1) actor = Some tgt"
      by (simp add: s1_def update_conv' split: option.splits)
    have tc1: "teams_complete s1"
    proof (cases "actor_flag s actor")
      case None
      then show ?thesis using tc by (simp add: s1_def teams_complete_def)
    next
      case (Some flag)
      then have "flag \<in> fst ` set (flags_coordinates s)"
        using cb map_of_keys [of "flags_coordinates s" flag] by (simp add: carried_on_board_def)
      then show ?thesis using tc Some
        by (simp add: s1_def teams_complete_def dom_update insert_absorb)
    qed
    have b1: "bases_coordinates s1 = bases_coordinates s"
      by (simp add: s1_def split: option.splits)
    have f1: "actor_flag s actor = Some flag \<Longrightarrow> map_of (flags_coordinates s1) flag = Some tgt" for flag
      by (simp add: s1_def update_conv')
    obtain t s' where ret: "check_flag_return_conditions hfr s1 actor = Inr (t, s')"
      using check_flag_return_conditions_total [OF tc1 at1] by blast
    have mv: "move hfr s actor direction = Inr ((True, t), s')"
      using tgt put ret by (simp add: move_def)
    note fr = check_flag_return_conditions_frame [OF at1 ret]
    have "map_of (actors_coordinates s') actor = Some tgt"
      using fr(1) at1 by simp
    moreover have "map_of (flags_coordinates s') flag = Some tgt"
      if "actor_flag s actor = Some flag" "flag_team flag \<noteq> actor_team actor" for flag
      using fr(5) [of flag] f1 that by auto
    moreover have "map_of (flags_coordinates s') flag = Some tgt
        \<or> map_of (flags_coordinates s') flag = map_of (bases_coordinates s) (Base (actor_team actor))"
      if "actor_flag s actor = Some flag" "flag_team flag = actor_team actor" for flag
      using fr(6) f1 [OF that(1)] that(2) b1 by auto
    ultimately show ?thesis
      using tgt mv True occupied
      by (intro exI [of _ tgt] exI [of _ True] exI [of _ t] exI [of _ s']) auto
  qed
qed

lemmas engine_defs =
  move_def calc_target_coordinates_def try_put_actor_def check_flag_return_conditions_def
  return_flag_to_base_def check_score_conditions_def flags_to_score_def getitem_def coordinates_actors_def
  coordinates_flags_def coordinates_bases_def inverse_dict_def

text \<open>
  Claim C1 as stated fails: the actor carries the flag of its own team, the move to
  \<open>(5, 4)\<close> succeeds, and the flag ends on its base \<open>(2, 2)\<close>, not on the target.
\<close>

theorem move_own_flag_counterexample:
  "actor_flag own_flag_board actor_a = Some (Flag ''A'') \<and>
   calc_target_coordinates own_flag_board actor_a right = Inr (Coordinates 5 4) \<and>
   move True own_flag_board actor_a right =
     Inr ((True, None),
          \<lparr>map_size = 10,
           actors_coordinates = [(actor_a, Coordinates 5 4), (actor_b, Coordinates 6 7)],
           flags_coordinates = [(Flag ''A'', Coordinates 2 2), (Flag ''B'', Coordinates 4 4)],
           bases_coordinates = [(Base ''A'', Coordinates 2 2), (Base ''B'', Coordinates 7 7)],
           walls_coordinates = {},
           actor_flag = Map.empty\<rparr>)"
  by (simp add: engine_defs own_flag_board_def actor_a_def actor_b_def)

text \<open>
  Claim C1 at a concrete board: carrying the flag of team B, \<open>actor_a\<close> moves right and
  takes the flag along; the move up into the wall is rejected.
\<close>

theorem move_relocates_witness:
  "distinct (map fst (actors_coordinates carrier_board)) \<and>
   map_of (actors_coordinates carrier_board) actor_a = Some (Coordinates 4 4) \<and>
   teams_complete carrier_board \<and> carried_on_board carrier_board actor_a \<and>
   (\<exists>scored s'. move True carrier_board actor_a right = Inr ((True, scored), s') \<and>
      map_of (actors_coordinates s') actor_a = Some (Coordinates 5 4) \<and>
      map_of (flags_coordinates s') (Flag ''B'') = Some (Coordinates 5 4)) \<and>
   (\<exists>scored. move True carrier_board actor_a up = Inr ((False, scored), carrier_board))"
proof -
  have h1: "distinct (map fst (actors_coordinates carrier_board))"
    by (simp add: carrier_board_def actor_a_def actor_b_def)
  have h2: "map_of (actors_coordinates carrier_board) actor_a = Some (Coordinates 4 4)"
    by (simp add: carrier_board_def)
  have h3: "teams_complete carrier_board"
    by (simp add: carrier_board_def teams_complete_def)
  have h4: "carried_on_board carrier_board actor_a"
    by (simp add: carrier_board_def carried_on_board_def)
  have r: "calc_target_coordinates carrier_board actor_a right = Inr (Coordinates 5 4)"
    by (simp add: calc_target_coordinates_def getitem_def carrier_board_def)
  have u: "calc_target_coordinates carrier_board actor_a up = Inr (Coordinates 4 5)"
    by (simp add: calc_target_coordinates_def getitem_def carrier_board_def)
  have fl: "actor_flag carrier_board actor_a = Some (Flag ''B'')"
    by (simp add: carrier_board_def)
  have team: "flag_team (Flag ''B'') \<noteq> actor_team actor_a"
    by (simp add: actor_a_def)
  have cond: "Coordinates 5 4 \<noteq> Coordinates 4 4
      \<and> (\<forall>b c. (b, c) \<in> set (actors_coordinates carrier_board) \<and> b \<noteq> actor_a \<longrightarrow> c \<noteq> Coordinates 5 4)
      \<and> Coordinates 5 4 \<notin> snd ` set (bases_coordinates carrier_board)
      \<and> Coordinates 5 4 \<notin> walls_coordinates carrier_board"
    by (auto simp: carrier_board_def)
  have wall: "Coordinates 4 5 \<in> walls_coordinates carrier_board"
    by (simp add: carrier_board_def)
  from move_relocates [OF h1 h2 h3 h4, of right True]
  obtain tgt moved scored s' where
    m: "calc_target_coordinates carrier_board actor_a right = Inr tgt"
      "move True carrier_board actor_a right = Inr ((moved, scored), s')"
      "moved \<longleftrightarrow> tgt \<noteq> Coordinates 4 4
          \<and> (\<forall>b c. (b, c) \<in> set (actors_coordinates carrier_board) \<and> b \<noteq> actor_a \<longrightarrow> c \<noteq> tgt)
          \<and> tgt \<notin> snd ` set (bases_coordinates carrier_board) \<and> tgt \<notin> walls_coordinates carrier_board"
      "moved \<longrightarrow> map_of (actors_coordinates s') actor_a = Some tgt \<and>
         (\<forall>flag. actor_flag carrier_board actor_a = Some flag \<longrightarrow>
            (if flag_team flag \<noteq> actor_team actor_a
             then map_of (flags_coordinates s') flag = Some tgt
             else map_of (flags_coordinates s') flag = Some tgt
                \<or> map_of (flags_coordinates s') flag = map_of (bases_coordinates carrier_board) (Base (actor_team actor_a))))"
    by blast
  have tgt: "tgt = Coordinates 5 4" using m(1) r by simp
  have moved: moved using m(3) cond unfolding tgt by blast
  have A: "\<exists>scored s'. move True carrier_board actor_a right = Inr ((True, scored), s') \<and>
      map_of (actors_coordinates s') actor_a = Some (Coordinates 5 4) \<and>
      map_of (flags_coordinates s') (Flag ''B'') = Some (Coordinates 5 4)"
    using m(2) m(4) moved fl team unfolding tgt by auto
  from move_relocates [OF h1 h2 h3 h4, of up True] u wall
  have B: "\<exists>scored. move True carrier_board actor_a up = Inr ((False, scored), carrier_board)"
    by auto
  show ?thesis using h1 h2 h3 h4 A B by blast
qed

lemma inverse_dict_only:
  assumes "(k, c) \<in> set d" and "\<And>k' c'. (k', c') \<in> set d \<Longrightarrow> k' \<noteq> k \<Longrightarrow> c' \<noteq> c"
  shows "map_of (inverse_dict d) c = Some k"
proof (cases "map_of (inverse_dict d) c")
  case None
  then show ?thesis using assms(1) inverse_dict_None [of d c] by force
next
  case (Some k')
  then have "(k', c) \<in> set d" by (rule inverse_dict_Some)
  then have "k' = k" using assms(2) by blast
  then show ?thesis using Some by simp
qed

text \<open>
  Claim C3 fails on the code. The flag of team A lies on the cell of \<open>actor_a\<close>, an
  actor of team A, and the flag-return check leaves the board unchanged and sends no flag
  home: it reads the cell in the position index of the flags, which shows one flag per
  cell, here another one. The board is chosen so that this holds whether the index shows
  the first or the last flag of the cell.
\<close>

theorem own_flag_not_returned:
  "map_of (actors_coordinates pile_board) actor_a = Some (Coordinates 4 4) \<and>
   map_of (flags_coordinates pile_board) (Flag ''A'') = Some (Coordinates 4 4) \<and>
   flag_team (Flag ''A'') = actor_team actor_a \<and>
   map_of (bases_coordinates pile_board) (Base ''A'') = Some (Coordinates 2 2) \<and>
   check_flag_return_conditions True pile_board actor_a = Inr (None, pile_board)"
  by (simp add: engine_defs pile_board_def actor_a_def actor_b_def)

lemma distinct_values_key:
  assumes "distinct (map snd xs)" and "(a, c) \<in> set xs" and "(b, c) \<in> set xs"
  shows "a = b"
proof -
  from assms(1) have "inj_on snd (set xs)" by (simp add: distinct_map)
  from inj_onD [OF this _ assms(2) assms(3)] show ?thesis by simp
qed

lemma coordinates_bases_eq:
  assumes "distinct (map fst (bases_coordinates s))" and "distinct (map snd (bases_coordinates s))"
  shows "coordinates_bases s c = Some b \<longleftrightarrow> map_of (bases_coordinates s) b = Some c"
proof
  assume "coordinates_bases s c = Some b"
  then have "(b, c) \<in> set (bases_coordinates s)"
    by (simp add: coordinates_bases_def inverse_dict_Some)
  then show "map_of (bases_coordinates s) b = Some c"
    using assms(1) by (rule_tac map_of_is_SomeI)
next
  assume "map_of (bases_coordinates s) b = Some c"
  then have in_set: "(b, c) \<in> set (bases_coordinates s)"
    by (rule map_of_SomeD)
  have uniq: "k' = b" if "(k', c) \<in> set (bases_coordinates s)" for k'
    using distinct_values_key [OF assms(2) that in_set] .
  show "coordinates_bases s c = Some b"
    unfolding coordinates_bases_def
  proof (rule inverse_dict_only [OF in_set])
    fix k' c'
    assume "(k', c') \<in> set (bases_coordinates s)" and "k' \<noteq> b"
    then show "c' \<noteq> c" using uniq by blast
  qed
qed

lemma score_loop_step_scores:
  assumes tc: "teams_complete s"
    and db: "distinct (map fst (bases_coordinates s))"
    and dc: "distinct (map snd (bases_coordinates s))"
    and sc: "scores_for hfr s f t"
  shows "score_loop hfr s (f # fl) acc = score_loop hfr s fl (Some t)"
proof -
  from sc obtain c where c: "map_of (flags_coordinates s) f = Some c"
    and b: "map_of (bases_coordinates s) (Base t) = Some c"
    and ne: "flag_team f \<noteq> t"
    and home: "\<not> hfr \<or> map_of (flags_coordinates s) (Flag t) = Some c"
    by (auto simp: scores_for_def)
  have idx: "coordinates_bases s c = Some (Base t)"
    using b by (simp add: coordinates_bases_eq [OF db dc])
  have "Base t \<in> fst ` set (bases_coordinates s)"
    using b map_of_keys [of "bases_coordinates s" "Base t"] by simp
  then have "Flag t \<in> fst ` set (flags_coordinates s)"
    using teams_complete_base [OF tc] by simp
  then obtain fc where fc: "map_of (flags_coordinates s) (Flag t) = Some fc"
    using map_of_keys [of "flags_coordinates s" "Flag t"] by auto
  show ?thesis using c b ne home idx fc
    by (auto simp: getitem_def Let_def)
qed

lemma score_loop_step_idle:
  assumes tc: "teams_complete s"
    and db: "distinct (map fst (bases_coordinates s))"
    and dc: "distinct (map snd (bases_coordinates s))"
    and c: "map_of (flags_coordinates s) f = Some c"
    and no: "\<And>t. \<not> scores_for hfr s f t"
  shows "score_loop hfr s (f # fl) acc = score_loop hfr s fl acc"
proof (cases "coordinates_bases s c")
  case None
  then show ?thesis using c by (simp add: getitem_def)
next
  case (Some b)
  then have b: "map_of (bases_coordinates s) (Base (base_team b)) = Some c"
    by (simp add: coordinates_bases_eq [OF db dc])
  then have "Base (base_team b) \<in> fst ` set (bases_coordinates s)"
    using map_of_keys [of "bases_coordinates s" "Base (base_team b)"] by simp
  then have "Flag (base_team b) \<in> fst ` set (flags_coordinates s)"
    using teams_complete_base [OF tc] by simp
  then obtain fc where fc: "map_of (flags_coordinates s) (Flag (base_team b)) = Some fc"
    using map_of_keys [of "flags_coordinates s" "Flag (base_team b)"] by auto
  have "\<not> (flag_team f \<noteq> base_team b \<and> (fc = c \<or> \<not> hfr))"
    using no [of "base_team b"] c b fc by (auto simp: scores_for_def)
  then show ?thesis using c Some b fc
    by (auto simp: getitem_def Let_def)
qed

lemma score_loop_idle:
  assumes tc: "teams_complete s"
    and db: "distinct (map fst (bases_coordinates s))"
    and dc: "distinct (map snd (bases_coordinates s))"
  shows "set fl \<subseteq> fst ` set (flags_coordinates s) \<Longrightarrow>
      (\<And>f t. f \<in> set fl \<Longrightarrow> \<not> scores_for hfr s f t) \<Longrightarrow> score_loop hfr s fl acc = Inr acc"
proof (induction fl)
  case Nil
  then show ?case by simp
next
  case (Cons f fl)
  from Cons.prems(1) obtain c where c: "map_of (flags_coordinates s) f = Some c"
    using map_of_keys [of "flags_coordinates s" f] by auto
  have "score_loop hfr s (f # fl) acc = score_loop hfr s fl acc"
    using score_loop_step_idle [OF tc db dc c] Cons.prems(2) by simp
  then show ?case using Cons.IH Cons.prems by simp
qed

lemma score_loop_last:
  assumes tc: "teams_complete s"
    and db: "distinct (map fst (bases_coordinates s))"
    and dc: "distinct (map snd (bases_coordinates s))"
    and sc: "scores_for hfr s f t"
    and post: "set post \<subseteq> fst ` set (flags_coordinates s)"
      "\<And>g u. g \<in> set post \<Longrightarrow> \<not> scores_for hfr s g u"
  shows "set pre \<subseteq> fst ` set (flags_coordinates s) \<Longrightarrow>
      score_loop hfr s (pre @ f # post) acc = Inr (Some t)"
proof (induction pre arbitrary: acc)
  case Nil
  show ?case
    using score_loop_step_scores [OF tc db dc sc, of post acc]
      score_loop_idle [OF tc db dc post(1), of hfr "Some t"] post(2)
    by simp
next
  case (Cons g pre)
  from Cons.prems obtain c where c: "map_of (flags_coordinates s) g = Some c"
    using map_of_keys [of "flags_coordinates s" g] by auto
  show ?case
  proof (cases "\<exists>u. scores_for hfr s g u")
    case True
    then obtain u where "scores_for hfr s g u" ..
    from score_loop_step_scores [OF tc db dc this, of "pre @ f # post" acc]
    show ?thesis using Cons.IH [of "Some u"] Cons.prems by simp
  next
    case False
    then have "score_loop hfr s (g # pre @ f # post) acc = score_loop hfr s (pre @ f # post) acc"
      using score_loop_step_idle [OF tc db dc c] by simp
    then show ?thesis using Cons.IH [of acc] Cons.prems by simp
  qed
qed

lemma score_loop_reported:
  assumes tc: "teams_complete s"
    and db: "distinct (map fst (bases_coordinates s))"
    and dc: "distinct (map snd (bases_coordinates s))"
  shows "set fl \<subseteq> fst ` set (flags_coordinates s) \<Longrightarrow> score_loop hfr s fl acc = Inr r \<Longrightarrow>
      r = acc \<or> (\<exists>f\<in>set fl. \<exists>t. r = Some t \<and> scores_for hfr s f t)"
proof (induction fl arbitrary: acc)
  case Nil
  then show ?case by simp
next
  case (Cons g fl)
  from Cons.prems obtain c where c: "map_of (flags_coordinates s) g = Some c"
    using map_of_keys [of "flags_coordinates s" g] by auto
  show ?case
  proof (cases "\<exists>u. scores_for hfr s g u")
    case True
    then obtain u where u: "scores_for hfr s g u" ..
    from score_loop_step_scores [OF tc db dc this, of fl acc] Cons.prems
    have "score_loop hfr s fl (Some u) = Inr r" by simp
    from Cons.IH [OF _ this] Cons.prems(1) u show ?thesis by auto
  next
    case False
    then have "score_loop hfr s (g # fl) acc = score_loop hfr s fl acc"
      using score_loop_step_idle [OF tc db dc c] by simp
    then have "score_loop hfr s fl acc = Inr r" using Cons.prems by simp
    from Cons.IH [OF _ this] Cons.prems(1) show ?thesis by auto
  qed
qed

lemma scores_for_one_team:
  assumes dc: "distinct (map snd (bases_coordinates s))"
    and "scores_for hfr s f t" and "scores_for hfr s f u"
  shows "t = u"
proof -
  from assms(2,3) obtain c where "map_of (bases_coordinates s) (Base t) = Some c"
    "map_of (bases_coordinates s) (Base u) = Some c"
    by (auto simp: scores_for_def)
  then have "(Base t, c) \<in> set (bases_coordinates s)" "(Base u, c) \<in> set (bases_coordinates s)"
    by (auto dest: map_of_SomeD)
  from distinct_values_key [OF dc this] show ?thesis by simp
qed

text \<open>
  Claim C2, as the code has it. On a board with complete teams whose bases lie on
  pairwise different cells, the scoring check returns; it reports no team exactly when
  no evaluated flag meets the scoring condition for any team; a reported team meets the
  condition through some evaluated flag; of several flags that meet it, the last one in
  the order of evaluation decides which team is reported, so the check reports one team
  at most; for one named flag it reports a team exactly when that flag meets the
  condition for it. The check is a function of the board and assigns nothing on it.
\<close>

theorem check_score_conditions_reports:
  assumes tc: "teams_complete s"
    and db: "distinct (map fst (bases_coordinates s))"
    and dc: "distinct (map snd (bases_coordinates s))"
    and ev: "set (flags_to_score s fo) \<subseteq> fst ` set (flags_coordinates s)"
  shows "\<exists>r. check_score_conditions hfr s fo = Inr r \<and>
     (r = None \<longleftrightarrow> (\<forall>f\<in>set (flags_to_score s fo). \<forall>t. \<not> scores_for hfr s f t)) \<and>
     (\<forall>t. r = Some t \<longrightarrow> (\<exists>f\<in>set (flags_to_score s fo). scores_for hfr s f t)) \<and>
     (\<forall>pre f post t. flags_to_score s fo = pre @ f # post \<and> scores_for hfr s f t
          \<and> (\<forall>g\<in>set post. \<forall>u. \<not> scores_for hfr s g u) \<longrightarrow> r = Some t) \<and>
     (\<forall>f t. fo = Some f \<longrightarrow> (r = Some t \<longleftrightarrow> scores_for hfr s f t))"
proof -
  let ?fl = "flags_to_score s fo"
  obtain r where r: "score_loop hfr s ?fl None = Inr r"
    using score_loop_total [OF tc ev] by blast
  have last: "r = Some t"
    if "?fl = pre @ f # post" "scores_for hfr s f t" "\<forall>g\<in>set post. \<forall>u. \<not> scores_for hfr s g u"
    for pre f post t
  proof -
    have sub: "set pre \<subseteq> fst ` set (flags_coordinates s)" "set post \<subseteq> fst ` set (flags_coordinates s)"
      using ev that(1) by auto
    from score_loop_last [OF tc db dc that(2) sub(2) _ sub(1), where acc = None] that(3)
    have "score_loop hfr s (pre @ f # post) None = Inr (Some t)" by blast
    then show ?thesis using r that(1) by simp
  qed
  have rep: "r = None \<or> (\<exists>f\<in>set ?fl. \<exists>t. r = Some t \<and> scores_for hfr s f t)"
    using score_loop_reported [OF tc db dc ev r] .
  have none: "r = None \<longleftrightarrow> (\<forall>f\<in>set ?fl. \<forall>t. \<not> scores_for hfr s f t)"
  proof
    assume "r = None"
    show "\<forall>f\<in>set ?fl. \<forall>t. \<not> scores_for hfr s f t"
    proof (rule ccontr)
      assume "\<not> (\<forall>f\<in>set ?fl. \<forall>t. \<not> scores_for hfr s f t)"
      then have "\<exists>f\<in>set ?fl. \<exists>t. scores_for hfr s f t" by blast
      from split_list_last_prop [OF this]
      obtain pre f post where d: "?fl = pre @ f # post" "\<exists>t. scores_for hfr s f t"
        "\<forall>g\<in>set post. \<not> (\<exists>t. scores_for hfr s g t)" by blast
      then obtain t where "scores_for hfr s f t" by blast
      from last [OF d(1) this] d(3) have "r = Some t" by blast
      then show False using \<open>r = None\<close> by simp
    qed
  next
    assume "\<forall>f\<in>set ?fl. \<forall>t. \<not> scores_for hfr s f t"
    then show "r = None" using rep by blast
  qed
  have some: "\<exists>f\<in>set ?fl. scores_for hfr s f t" if "r = Some t" for t
    using rep that by auto
  have single: "r = Some t \<longleftrightarrow> scores_for hfr s f t" if "fo = Some f" for f t
  proof
    assume "r = Some t"
    from some [OF this] that show "scores_for hfr s f t" by (simp add: flags_to_score_def)
  next
    assume "scores_for hfr s f t"
    from last [of "[]" f "[]" t] this that show "r = Some t" by (simp add: flags_to_score_def)
  qed
  show ?thesis
    using r none some last single unfolding check_score_conditions_def by blast
qed

text \<open>
  Claim C2 as stated fails: with home-flag-required disabled and each flag on the base
  of the other team, both teams meet the condition, and the check over all flags
  reports team A only.
\<close>

theorem check_score_two_teams_counterexample:
  "scores_for False swapped_board (Flag ''A'') ''B'' \<and>
   Flag ''A'' \<in> set (flags_to_score swapped_board None) \<and>
   check_score_conditions False swapped_board None = Inr (Some ''A'')"
  by (simp add: engine_defs scores_for_def swapped_board_def)

text \<open>
  Claim C2 at a concrete board: the flag of team B rests on the base of team A, the flag
  of team A is at home, and the check over all flags reports team A.
\<close>

theorem check_score_conditions_reports_witness:
  "teams_complete scoring_board \<and>
   distinct (map fst (bases_coordinates scoring_board)) \<and>
   distinct (map snd (bases_coordinates scoring_board)) \<and>
   set (flags_to_score scoring_board None) \<subseteq> fst ` set (flags_coordinates scoring_board) \<and>
   scores_for True scoring_board (Flag ''B'') ''A'' \<and>
   check_score_conditions True scoring_board None = Inr (Some ''A'')"
proof -
  have h1: "teams_complete scoring_board"
    by (simp add: scoring_board_def teams_complete_def)
  have h2: "distinct (map fst (bases_coordinates scoring_board))"
    by (simp add: scoring_board_def)
  have h3: "distinct (map snd (bases_coordinates scoring_board))"
    by (simp add: scoring_board_def)
  have h4: "set (flags_to_score scoring_board None) \<subseteq> fst ` set (flags_coordinates scoring_board)"
    by (simp add: scoring_board_def flags_to_score_def)
  have l: "flags_to_score scoring_board None = [Flag ''A''] @ Flag ''B'' # []"
    by (simp add: scoring_board_def flags_to_score_def)
  have sc: "scores_for True scoring_board (Flag ''B'') ''A''"
    by (simp add: scoring_board_def scores_for_def)
  from check_score_conditions_reports [OF h1 h2 h3 h4, of True]
  obtain r where r: "check_score_conditions True scoring_board None = Inr r"
    and last: "\<forall>pre f post t. flags_to_score scoring_board None = pre @ f # post
        \<and> scores_for True scoring_board f t
        \<and> (\<forall>g\<in>set post. \<forall>u. \<not> scores_for True scoring_board g u) \<longrightarrow> r = Some t"
    by blast
  from last l sc have "r = Some ''A''"
    by (metis empty_iff list.set(1))
  then show ?thesis using h1 h2 h3 h4 sc r by simp
qed

lemma grabput_flag_put_free:
  assumes "calc_target_coordinates s actor direction = Inr tgt"
    and "actor_flag s actor = Some F"
    and "coordinates_actors s tgt = None"
    and "tgt \<notin> walls_coordinates s"
  shows "grabput_flag hfr s actor direction r =
    (case check_score_conditions hfr
        (s\<lparr>flags_coordinates := AList.update F tgt (flags_coordinates s),
           actor_flag := (actor_flag s)(actor := None)\<rparr>) (Some F) of
       Inl e \<Rightarrow> Inl e
     | Inr t \<Rightarrow> Inr ((True, t), s\<lparr>flags_coordinates := AList.update F tgt (flags_coordinates s),
                                   actor_flag := (actor_flag s)(actor := None)\<rparr>))"
  using assms by (simp add: grabput_flag_def Let_def)

text \<open>
  Claim C10. An actor that holds flag \<open>F\<close> and faces a cell with no actor and no wall
  puts the flag there: the order succeeds, \<open>F\<close> is on the target cell, the actor's flag
  reference is cleared, and every other flag stays where it was, also one that rests on
  the target cell.
\<close>

theorem put_beside_resting_flag:
  assumes tgt: "calc_target_coordinates s actor direction = Inr tgt"
    and hold: "actor_flag s actor = Some F"
    and free: "tgt \<notin> snd ` set (actors_coordinates s)"
    and nowall: "tgt \<notin> walls_coordinates s"
    and tc: "teams_complete s"
    and fk: "F \<in> fst ` set (flags_coordinates s)"
  shows "\<exists>t s'. grabput_flag hfr s actor direction r = Inr ((True, t), s') \<and>
      map_of (flags_coordinates s') F = Some tgt \<and>
      actor_flag s' actor = None \<and>
      (\<forall>G. G \<noteq> F \<longrightarrow> map_of (flags_coordinates s') G = map_of (flags_coordinates s) G)"
proof -
  let ?s1 = "s\<lparr>flags_coordinates := AList.update F tgt (flags_coordinates s),
               actor_flag := (actor_flag s)(actor := None)\<rparr>"
  have idx: "coordinates_actors s tgt = None"
    using free by (simp add: coordinates_actors_def inverse_dict_None)
  have tc1: "teams_complete ?s1"
    using tc fk by (simp add: teams_complete_def dom_update insert_absorb)
  have "F \<in> fst ` set (flags_coordinates ?s1)"
    by (simp add: dom_update)
  with check_score_conditions_total [OF tc1, of "Some F" hfr]
  obtain t where t: "check_score_conditions hfr ?s1 (Some F) = Inr t" by auto
  have "grabput_flag hfr s actor direction r = Inr ((True, t), ?s1)"
    using grabput_flag_put_free [OF tgt hold idx nowall, of hfr r] t by simp
  moreover have "map_of (flags_coordinates ?s1) F = Some tgt"
    by (simp add: update_conv')
  moreover have "\<forall>G. G \<noteq> F \<longrightarrow> map_of (flags_coordinates ?s1) G = map_of (flags_coordinates s) G"
    by (simp add: update_conv')
  ultimately show ?thesis by (intro exI [of _ t] exI [of _ ?s1]) simp
qed

text \<open>
  Claim C10 at a concrete board: the flag of team A rests on \<open>(5, 4)\<close>; \<open>actor_a\<close> puts
  the flag of team B on the same cell, and both flags are there afterwards.
\<close>

theorem put_beside_resting_flag_witness:
  "calc_target_coordinates stack_board actor_a right = Inr (Coordinates 5 4) \<and>
   actor_flag stack_board actor_a = Some (Flag ''B'') \<and>
   Coordinates 5 4 \<notin> snd ` set (actors_coordinates stack_board) \<and>
   Coordinates 5 4 \<notin> walls_coordinates stack_board \<and>
   teams_complete stack_board \<and>
   Flag ''B'' \<in> fst ` set (flags_coordinates stack_board) \<and>
   (\<exists>t s'. grabput_flag True stack_board actor_a right 0 = Inr ((True, t), s') \<and>
      map_of (flags_coordinates s') (Flag ''B'') = Some (Coordinates 5 4) \<and>
      map_of (flags_coordinates s') (Flag ''A'') = Some (Coordinates 5 4))"
proof -
  have h1: "calc_target_coordinates stack_board actor_a right = Inr (Coordinates 5 4)"
    by (simp add: calc_target_coordinates_def getitem_def stack_board_def)
  have h2: "actor_flag stack_board actor_a = Some (Flag ''B'')"
    by (simp add: stack_board_def)
  have h3: "Coordinates 5 4 \<notin> snd ` set (actors_coordinates stack_board)"
    by (simp add: stack_board_def)
  have h4: "Coordinates 5 4 \<notin> walls_coordinates stack_board"
    by (simp add: stack_board_def)
  have h5: "teams_complete stack_board"
    by (auto simp: stack_board_def teams_complete_def)
  have h6: "Flag ''B'' \<in> fst ` set (flags_coordinates stack_board)"
    by (simp add: stack_board_def)
  have a: "map_of (flags_coordinates stack_board) (Flag ''A'') = Some (Coordinates 5 4)"
    by (simp add: stack_board_def)
  from put_beside_resting_flag [OF h1 h2 h3 h4 h5 h6, of True 0]
  obtain t s' where "grabput_flag True stack_board actor_a right 0 = Inr ((True, t), s')"
    "map_of (flags_coordinates s') (Flag ''B'') = Some (Coordinates 5 4)"
    "\<forall>G. G \<noteq> Flag ''B'' \<longrightarrow> map_of (flags_coordinates s') G = map_of (flags_coordinates stack_board) G"
    by blast
  then have "\<exists>t s'. grabput_flag True stack_board actor_a right 0 = Inr ((True, t), s') \<and>
      map_of (flags_coordinates s') (Flag ''B'') = Some (Coordinates 5 4) \<and>
      map_of (flags_coordinates s') (Flag ''A'') = Some (Coordinates 5 4)"
    using a by auto
  then show ?thesis using h1 h2 h3 h4 h5 h6 by blast
qed








lemma index_away:
  assumes "distinct (map fst d)" and "map_of d k \<noteq> Some c"
  shows "map_of (inverse_dict d) c \<noteq> Some k"
proof
  assume "map_of (inverse_dict d) c = Some k"
  then have "(k, c) \<in> set d" by (rule inverse_dict_Some)
  then show False using assms by simp
qed

text \<open>
  Claim C7, as the code has it. A grab with a winning draw succeeds. If the grabbed flag
  \<open>F\<close> belongs to another team and the flag of the grabber's team is not on the
  grabber's cell, \<open>F\<close> ends on the grabber's cell and the grabber's reference is \<open>F\<close>
  (the grabber not being itself the actor found on the target cell). A grabbed flag of
  the grabber's own team ends on the grabber's cell or, by the flag-return check that
  ends the grab, on its base. An actor on the target cell that held \<open>F\<close>, or nothing,
  holds nothing afterwards, and every actor other than the grabber and the actor on the
  target cell keeps its flag reference.
\<close>

theorem grab_frame:
  assumes cur: "map_of (actors_coordinates s) actor = Some cur"
    and tgt: "calc_target_coordinates s actor direction = Inr tgt"
    and tc: "teams_complete s"
    and keys: "distinct (map fst (flags_coordinates s))"
    and nohold: "actor_flag s actor = None"
    and idx: "coordinates_flags s tgt = Some F"
    and win: "r < actor_grab actor"
  shows "\<exists>t s'. grabput_flag hfr s actor direction r = Inr ((True, t), s') \<and>
     (\<forall>b. b \<noteq> actor \<and> coordinates_actors s tgt \<noteq> Some b \<longrightarrow> actor_flag s' b = actor_flag s b) \<and>
     (\<forall>ta. coordinates_actors s tgt = Some ta \<and> ta \<noteq> actor
            \<and> (actor_flag s ta = Some F \<or> actor_flag s ta = None) \<longrightarrow> actor_flag s' ta = None) \<and>
     (flag_team F \<noteq> actor_team actor
        \<and> map_of (flags_coordinates s) (Flag (actor_team actor)) \<noteq> Some cur \<longrightarrow>
          map_of (flags_coordinates s') F = Some cur
          \<and> (coordinates_actors s tgt \<noteq> Some actor \<longrightarrow> actor_flag s' actor = Some F)) \<and>
     (flag_team F = actor_team actor \<longrightarrow>
          map_of (flags_coordinates s') F = Some cur
          \<or> map_of (flags_coordinates s') F = map_of (bases_coordinates s) (Base (actor_team actor)))"
proof -
  define s1 where "s1 = s\<lparr>flags_coordinates := AList.update F cur (flags_coordinates s),
      actor_flag := (actor_flag s)(actor := Some F)\<rparr>"
  define s2 where "s2 = (case coordinates_actors s tgt of
      None \<Rightarrow> s1 | Some ta \<Rightarrow> s1\<lparr>actor_flag := (actor_flag s1)(ta := None)\<rparr>)"
  have fk: "F \<in> fst ` set (flags_coordinates s)"
    using idx inverse_dict_Some [of "flags_coordinates s" tgt F]
    by (force simp: coordinates_flags_def)
  have tc2: "teams_complete s2"
    using tc fk by (simp add: s2_def s1_def teams_complete_def dom_update insert_absorb split: option.splits)
  have at2: "map_of (actors_coordinates s2) actor = Some cur"
    using cur by (simp add: s2_def s1_def split: option.splits)
  have fl2: "flags_coordinates s2 = AList.update F cur (flags_coordinates s)"
    by (simp add: s2_def s1_def split: option.splits)
  have b2: "bases_coordinates s2 = bases_coordinates s"
    by (simp add: s2_def s1_def split: option.splits)
  have af2: "actor_flag s2 =
      (case coordinates_actors s tgt of
         None \<Rightarrow> (actor_flag s)(actor := Some F)
       | Some ta \<Rightarrow> ((actor_flag s)(actor := Some F))(ta := None))"
    by (simp add: s2_def s1_def split: option.splits)
  obtain t s' where ret: "check_flag_return_conditions hfr s2 actor = Inr (t, s')"
    using check_flag_return_conditions_total [OF tc2 at2] by blast
  have "grabput_flag hfr s actor direction r =
      (case check_flag_return_conditions hfr s2 actor of
         Inl e \<Rightarrow> Inl e
       | Inr (t, s3) \<Rightarrow> Inr ((True, t), s3))"
    unfolding s2_def s1_def
    using tgt nohold idx win cur
    by (simp add: grabput_flag_def Let_def getitem_def)
  then have res: "grabput_flag hfr s actor direction r = Inr ((True, t), s')"
    using ret by simp
  note fr = check_flag_return_conditions_frame [OF at2 ret]
  have others: "actor_flag s' b = actor_flag s b"
    if "b \<noteq> actor" "coordinates_actors s tgt \<noteq> Some b" for b
    using fr(7) [OF that(1)] that by (simp add: af2 split: option.splits)
  have occupant: "actor_flag s' ta = None" if ta: "coordinates_actors s tgt = Some ta" for ta
  proof (cases "ta = actor")
    case False
    then show ?thesis using fr(7) [of ta] ta by (simp add: af2)
  next
    case True
    have "actor_flag s2 actor = None" using ta True by (simp add: af2)
    then show ?thesis
      using ret True unfolding check_flag_return_conditions_eq [OF at2]
      by (auto split: if_splits option.splits sum.splits)
  qed
  have foreign: "map_of (flags_coordinates s') F = Some cur
      \<and> (coordinates_actors s tgt \<noteq> Some actor \<longrightarrow> actor_flag s' actor = Some F)"
    if ne: "flag_team F \<noteq> actor_team actor"
      and away: "map_of (flags_coordinates s) (Flag (actor_team actor)) \<noteq> Some cur"
  proof -
    have "F \<noteq> Flag (actor_team actor)" using ne by auto
    then have "map_of (flags_coordinates s2) (Flag (actor_team actor)) \<noteq> Some cur"
      using away by (simp add: fl2 update_conv')
    moreover have "distinct (map fst (flags_coordinates s2))"
      using keys by (simp add: fl2 distinct_update)
    ultimately have "coordinates_flags s2 cur \<noteq> Some (Flag (actor_team actor))"
      unfolding coordinates_flags_def by (intro index_away)
    then have "s' = s2"
      using ret by (simp add: check_flag_return_conditions_eq [OF at2])
    then show ?thesis
      by (auto simp: fl2 af2 update_conv' split: option.splits)
  qed
  have own: "map_of (flags_coordinates s') F = Some cur
      \<or> map_of (flags_coordinates s') F = map_of (bases_coordinates s) (Base (actor_team actor))"
    if "flag_team F = actor_team actor"
  proof -
    have F: "F = Flag (actor_team actor)" using that by auto
    show ?thesis using fr(6) unfolding F [symmetric] b2
      by (simp add: fl2 update_conv')
  qed
  show ?thesis
    using res others occupant foreign own
    by (intro exI [of _ t] exI [of _ s']) blast
qed

text \<open>
  Claim C7 as stated fails: \<open>actor_a\<close> of team A grabs the flag of its own team from
  the cell to its right. The grab succeeds, and the flag-return check that ends it sends
  the flag to its base \<open>(2, 2)\<close> and clears the reference of the grabber: the flag is
  not on the grabber's cell \<open>(4, 4)\<close> and the grabber does not hold it.
\<close>

theorem grab_own_flag_counterexample:
  "actor_flag stray_board actor_a = None \<and>
   map_of (actors_coordinates stray_board) actor_a = Some (Coordinates 4 4) \<and>
   coordinates_flags stray_board (Coordinates 5 4) = Some (Flag ''A'') \<and>
   grabput_flag True stray_board actor_a right 0 =
     Inr ((True, None),
          \<lparr>map_size = 10,
           actors_coordinates = [(actor_a, Coordinates 4 4), (actor_b, Coordinates 6 7)],
           flags_coordinates = [(Flag ''A'', Coordinates 2 2), (Flag ''B'', Coordinates 7 7)],
           bases_coordinates = [(Base ''A'', Coordinates 2 2), (Base ''B'', Coordinates 7 7)],
           walls_coordinates = {},
           actor_flag = Map.empty\<rparr>)"
  by (simp add: grabput_flag_def engine_defs stray_board_def actor_a_def actor_b_def fun_eq_iff)

text \<open>
  Claim C7 at a concrete board: \<open>actor_a\<close> grabs the flag of team C out of the hands
  of \<open>actor_b\<close>, which stands on the cell to its right; afterwards the flag is on the
  grabber's cell, the grabber holds it and \<open>actor_b\<close> holds nothing.
\<close>

theorem grab_frame_witness:
  "map_of (actors_coordinates robbery_board) actor_a = Some (Coordinates 4 4) \<and>
   calc_target_coordinates robbery_board actor_a right = Inr (Coordinates 5 4) \<and>
   teams_complete robbery_board \<and>
   distinct (map fst (flags_coordinates robbery_board)) \<and>
   actor_flag robbery_board actor_a = None \<and>
   coordinates_flags robbery_board (Coordinates 5 4) = Some (Flag ''C'') \<and>
   (1 / 2 :: rat) < actor_grab actor_a \<and>
   coordinates_actors robbery_board (Coordinates 5 4) = Some actor_b \<and>
   actor_flag robbery_board actor_b = Some (Flag ''C'') \<and>
   (\<exists>t s'. grabput_flag True robbery_board actor_a right (1 / 2) = Inr ((True, t), s') \<and>
      map_of (flags_coordinates s') (Flag ''C'') = Some (Coordinates 4 4) \<and>
      actor_flag s' actor_a = Some (Flag ''C'') \<and>
      actor_flag s' actor_b = None)"
proof -
  have l1: "map_of (actors_coordinates robbery_board) actor_a = Some (Coordinates 4 4)"
    by (simp add: robbery_board_def)
  have l2: "calc_target_coordinates robbery_board actor_a right = Inr (Coordinates 5 4)"
    by (simp add: calc_target_coordinates_def getitem_def robbery_board_def)
  have l3: "teams_complete robbery_board"
    by (simp add: robbery_board_def teams_complete_def)
  have l4: "distinct (map fst (flags_coordinates robbery_board))"
    by (simp add: robbery_board_def)
  have e4: "actor_b \<noteq> actor_a"
    by (simp add: actor_a_def actor_b_def)
  have l5: "actor_flag robbery_board actor_a = None"
    using e4 by (simp add: robbery_board_def)
  have l6: "coordinates_flags robbery_board (Coordinates 5 4) = Some (Flag ''C'')"
    by (simp add: coordinates_flags_def inverse_dict_def robbery_board_def)
  have l7: "(1 / 2 :: rat) < actor_grab actor_a"
    by (simp add: actor_a_def)
  have e1: "flag_team (Flag ''C'') \<noteq> actor_team actor_a"
    by (simp add: actor_a_def)
  have e2: "map_of (flags_coordinates robbery_board) (Flag (actor_team actor_a)) \<noteq> Some (Coordinates 4 4)"
    by (simp add: robbery_board_def actor_a_def)
  have e3: "coordinates_actors robbery_board (Coordinates 5 4) = Some actor_b"
    using e4 by (simp add: coordinates_actors_def inverse_dict_def robbery_board_def)
  have e5: "actor_flag robbery_board actor_b = Some (Flag ''C'')"
    by (simp add: robbery_board_def)
  from grab_frame [OF l1 l2 l3 l4 l5 l6 l7, of True]
  obtain t s' where g: "grabput_flag True robbery_board actor_a right (1 / 2) = Inr ((True, t), s')"
    and o: "\<forall>ta. coordinates_actors robbery_board (Coordinates 5 4) = Some ta \<and> ta \<noteq> actor_a
            \<and> (actor_flag robbery_board ta = Some (Flag ''C'') \<or> actor_flag robbery_board ta = None)
          \<longrightarrow> actor_flag s' ta = None"
    and f: "flag_team (Flag ''C'') \<noteq> actor_team actor_a
        \<and> map_of (flags_coordinates robbery_board) (Flag (actor_team actor_a)) \<noteq> Some (Coordinates 4 4) \<longrightarrow>
          map_of (flags_coordinates s') (Flag ''C'') = Some (Coordinates 4 4)
          \<and> (coordinates_actors robbery_board (Coordinates 5 4) \<noteq> Some actor_a
               \<longrightarrow> actor_flag s' actor_a = Some (Flag ''C''))"
    by blast
  have "actor_flag s' actor_b = None"
    using o e3 e4 e5 by blast
  moreover have "map_of (flags_coordinates s') (Flag ''C'') = Some (Coordinates 4 4)
      \<and> actor_flag s' actor_a = Some (Flag ''C'')"
    using f e1 e2 e3 e4 by simp
  ultimately have "\<exists>t s'. grabput_flag True robbery_board actor_a right (1 / 2) = Inr ((True, t), s') \<and>
      map_of (flags_coordinates s') (Flag ''C'') = Some (Coordinates 4 4) \<and>
      actor_flag s' actor_a = Some (Flag ''C'') \<and>
      actor_flag s' actor_b = None"
    using g by blast
  then show ?thesis using l1 l2 l3 l4 l5 l6 l7 e3 e5 by blast
qed

lemma possible_spawn_points_iff:
  "c \<in> set (possible_spawn_points n bc) \<longleftrightarrow>
     coord_x bc - 2 \<le> coord_x c \<and> coord_x c \<le> coord_x bc + 2 \<and>
     coord_y bc - 2 \<le> coord_y c \<and> coord_y c \<le> coord_y bc + 2 \<and>
     valid_coordinates n (coord_x c) (coord_y c)"
  by (cases c) (auto simp: possible_spawn_points_def)

lemma random_choice_member:
  "random_choice xs k = Inr x \<Longrightarrow> x \<in> set xs"
  by (auto simp: random_choice_def split: if_splits)

lemma random_choice_total:
  "xs \<noteq> [] \<Longrightarrow> \<exists>x. random_choice xs k = Inr x"
  by (simp add: random_choice_def)

lemma place_actor_in_area_result:
  assumes "place_actor_in_area s actor pts forb k = Inr s'"
  shows "\<exists>c. c \<in> set pts \<and> c \<notin> forb \<and>
     s' = s\<lparr>actor_flag := (actor_flag s)(actor := None),
            actors_coordinates := AList.update actor c (actors_coordinates s)\<rparr>"
  using assms
  by (auto simp: place_actor_in_area_def Let_def split: sum.splits dest!: random_choice_member)

text \<open>
  Claim C4, as the code has it. If the actor's team has a base and some cell of the
  window \<open>[base.x - 2, base.x + 2] x [base.y - 2, base.y + 2]\<close> (both ends included, the
  window of the respawn's own loops) lies on the board and holds no actor, flag, base
  or wall, then the respawn returns, whatever the draw; the actor is relocated to a cell
  of that window on the board that holds no actor, flag, base or wall; the flag
  dictionary is unchanged, so a carried flag stays on the cell where it was; the actor's
  flag reference is cleared; the other actors keep their cells and flag references.
\<close>

theorem respawn_spec:
  assumes base: "map_of (bases_coordinates s) (Base (actor_team actor)) = Some bc"
    and cand: "coord_x bc - 2 \<le> coord_x c0 \<and> coord_x c0 \<le> coord_x bc + 2 \<and>
       coord_y bc - 2 \<le> coord_y c0 \<and> coord_y c0 \<le> coord_y bc + 2 \<and>
       valid_coordinates (map_size s) (coord_x c0) (coord_y c0) \<and> c0 \<notin> forbidden_positions s"
  shows "\<exists>s' c. respawn s actor k = Inr s' \<and>
     map_of (actors_coordinates s') actor = Some c \<and>
     coord_x bc - 2 \<le> coord_x c \<and> coord_x c \<le> coord_x bc + 2 \<and>
     coord_y bc - 2 \<le> coord_y c \<and> coord_y c \<le> coord_y bc + 2 \<and>
     valid_coordinates (map_size s) (coord_x c) (coord_y c) \<and>
     c \<notin> snd ` set (actors_coordinates s) \<and> c \<notin> snd ` set (flags_coordinates s) \<and>
     c \<notin> snd ` set (bases_coordinates s) \<and> c \<notin> walls_coordinates s \<and>
     flags_coordinates s' = flags_coordinates s \<and>
     actor_flag s' actor = None \<and>
     (\<forall>b. b \<noteq> actor \<longrightarrow> actor_flag s' b = actor_flag s b
           \<and> map_of (actors_coordinates s') b = map_of (actors_coordinates s) b)"
proof -
  let ?pts = "possible_spawn_points (map_size s) bc"
  let ?allowed = "filter (\<lambda>c. c \<notin> forbidden_positions s) (remdups ?pts)"
  have "c0 \<in> set ?allowed"
    using cand by (simp add: possible_spawn_points_iff)
  then have "?allowed \<noteq> []" by (auto simp: filter_empty_conv)
  from random_choice_total [OF this, of k]
  obtain c where c: "random_choice ?allowed k = Inr c" by blast
  let ?s' = "s\<lparr>actor_flag := (actor_flag s)(actor := None),
                actors_coordinates := AList.update actor c (actors_coordinates s)\<rparr>"
  have res: "respawn s actor k = Inr ?s'"
    using base c by (simp add: respawn_def place_actor_in_area_def getitem_def Let_def)
  from random_choice_member [OF c]
  have mem: "c \<in> set ?pts" "c \<notin> forbidden_positions s" by auto
  have win: "coord_x bc - 2 \<le> coord_x c \<and> coord_x c \<le> coord_x bc + 2 \<and>
     coord_y bc - 2 \<le> coord_y c \<and> coord_y c \<le> coord_y bc + 2 \<and>
     valid_coordinates (map_size s) (coord_x c) (coord_y c)"
    using mem(1) by (simp add: possible_spawn_points_iff)
  have free: "c \<notin> snd ` set (actors_coordinates s) \<and> c \<notin> snd ` set (flags_coordinates s) \<and>
     c \<notin> snd ` set (bases_coordinates s) \<and> c \<notin> walls_coordinates s"
    using mem(2) by (simp add: forbidden_positions_def)
  have rest: "map_of (actors_coordinates ?s') actor = Some c \<and>
     flags_coordinates ?s' = flags_coordinates s \<and> actor_flag ?s' actor = None \<and>
     (\<forall>b. b \<noteq> actor \<longrightarrow> actor_flag ?s' b = actor_flag s b
           \<and> map_of (actors_coordinates ?s') b = map_of (actors_coordinates s) b)"
    by (simp add: update_conv')
  show ?thesis
    using res win free rest by (intro exI [of _ ?s'] exI [of _ c]) blast
qed

lemma upto_5_9: "[5..9] = [5, 6, 7, 8, 9 :: int]"
  by code_simp

text \<open>
  Claim C4 as stated fails: the base of team B is at \<open>(7, 7)\<close>, and a draw relocates
  \<open>actor_b\<close> to the free cell \<open>(9, 7)\<close>, whose \<open>x\<close> is \<open>base.x + 2\<close>, outside
  \<open>[base.x - 2, base.x + 2)\<close>.
\<close>

theorem respawn_window_counterexample:
  "map_of (bases_coordinates loose_board) (Base (actor_team actor_b)) = Some (Coordinates 7 7) \<and>
   Coordinates 9 7 \<notin> forbidden_positions loose_board \<and>
   respawn loose_board actor_b 20 =
     Inr \<lparr>map_size = 10,
          actors_coordinates = [(actor_a, Coordinates 4 4), (actor_b, Coordinates 9 7)],
          flags_coordinates = [(Flag ''A'', Coordinates 2 2), (Flag ''B'', Coordinates 5 4)],
          bases_coordinates = [(Base ''A'', Coordinates 2 2), (Base ''B'', Coordinates 7 7)],
          walls_coordinates = {},
          actor_flag = Map.empty\<rparr>"
  by (simp add: respawn_def place_actor_in_area_def possible_spawn_points_def forbidden_positions_def
      valid_coordinates_def random_choice_def getitem_def loose_board_def actor_a_def actor_b_def
      upto_5_9 fun_eq_iff)

lemma upto_0_4: "[0..4] = [0, 1, 2, 3, 4 :: int]"
  by code_simp

text \<open>
  Claim C4 at a concrete board: \<open>actor_a\<close> carries the flag of team B on \<open>(4, 4)\<close>; its
  respawn puts it on a free cell around its base \<open>(2, 2)\<close>, the flag stays on \<open>(4, 4)\<close>
  and the actor's hands are empty.
\<close>

theorem respawn_spec_witness:
  "map_of (bases_coordinates carrier_board) (Base (actor_team actor_a)) = Some (Coordinates 2 2) \<and>
   valid_coordinates (map_size carrier_board) 1 1 \<and>
   Coordinates 1 1 \<notin> forbidden_positions carrier_board \<and>
   actor_flag carrier_board actor_a = Some (Flag ''B'') \<and>
   map_of (flags_coordinates carrier_board) (Flag ''B'') = Some (Coordinates 4 4) \<and>
   (\<exists>s' c. respawn carrier_board actor_a 7 = Inr s' \<and>
      map_of (actors_coordinates s') actor_a = Some c \<and>
      0 \<le> coord_x c \<and> coord_x c \<le> 4 \<and> 0 \<le> coord_y c \<and> coord_y c \<le> 4 \<and>
      c \<notin> forbidden_positions carrier_board \<and>
      map_of (flags_coordinates s') (Flag ''B'') = Some (Coordinates 4 4) \<and>
      actor_flag s' actor_a = None)"
proof -
  have h1: "map_of (bases_coordinates carrier_board) (Base (actor_team actor_a)) = Some (Coordinates 2 2)"
    by (simp add: carrier_board_def actor_a_def)
  have v: "valid_coordinates (map_size carrier_board) 1 1"
    by (simp add: carrier_board_def valid_coordinates_def)
  have f: "Coordinates 1 1 \<notin> forbidden_positions carrier_board"
    by (simp add: carrier_board_def forbidden_positions_def)
  have h2: "coord_x (Coordinates 2 2) - 2 \<le> coord_x (Coordinates 1 1)
      \<and> coord_x (Coordinates 1 1) \<le> coord_x (Coordinates 2 2) + 2
      \<and> coord_y (Coordinates 2 2) - 2 \<le> coord_y (Coordinates 1 1)
      \<and> coord_y (Coordinates 1 1) \<le> coord_y (Coordinates 2 2) + 2
      \<and> valid_coordinates (map_size carrier_board) (coord_x (Coordinates 1 1)) (coord_y (Coordinates 1 1))
      \<and> Coordinates 1 1 \<notin> forbidden_positions carrier_board"
    using v f by simp
  have a: "actor_flag carrier_board actor_a = Some (Flag ''B'')"
    by (simp add: carrier_board_def)
  have b: "map_of (flags_coordinates carrier_board) (Flag ''B'') = Some (Coordinates 4 4)"
    by (simp add: carrier_board_def)
  from respawn_spec [OF h1 h2, of 7]
  obtain s' c where r: "respawn carrier_board actor_a 7 = Inr s'"
    "map_of (actors_coordinates s') actor_a = Some c"
    "coord_x (Coordinates 2 2) - 2 \<le> coord_x c" "coord_x c \<le> coord_x (Coordinates 2 2) + 2"
    "coord_y (Coordinates 2 2) - 2 \<le> coord_y c" "coord_y c \<le> coord_y (Coordinates 2 2) + 2"
    "c \<notin> snd ` set (actors_coordinates carrier_board)" "c \<notin> snd ` set (flags_coordinates carrier_board)"
    "c \<notin> snd ` set (bases_coordinates carrier_board)" "c \<notin> walls_coordinates carrier_board"
    "flags_coordinates s' = flags_coordinates carrier_board" "actor_flag s' actor_a = None"
    by blast
  have "c \<notin> forbidden_positions carrier_board"
    using r(7-10) by (simp add: forbidden_positions_def)
  then have "\<exists>s' c. respawn carrier_board actor_a 7 = Inr s' \<and>
      map_of (actors_coordinates s') actor_a = Some c \<and>
      0 \<le> coord_x c \<and> coord_x c \<le> 4 \<and> 0 \<le> coord_y c \<and> coord_y c \<le> 4 \<and>
      c \<notin> forbidden_positions carrier_board \<and>
      map_of (flags_coordinates s') (Flag ''B'') = Some (Coordinates 4 4) \<and>
      actor_flag s' actor_a = None"
    using r b by (intro exI [of _ s'] exI [of _ c]) simp
  then show ?thesis using h1 v f a b by blast
qed

lemma update_entries: "set (AList.update k v al) \<subseteq> insert (k, v) (set al)"
proof (induction al)
  case Nil
  show ?case by simp
next
  case (Cons p al)
  then show ?case by (cases "fst p = k") auto
qed

lemma one_actor_per_cell_update:
  assumes inv: "one_actor_per_cell s"
    and free: "c \<notin> snd ` set (actors_coordinates s)"
    and s': "actors_coordinates s' = AList.update a c (actors_coordinates s)"
  shows "one_actor_per_cell s'"
  unfolding one_actor_per_cell_def
proof (intro ballI impI)
  fix p q
  assume p: "p \<in> set (actors_coordinates s')" and q: "q \<in> set (actors_coordinates s')"
    and eq: "snd p = snd q"
  have sub: "set (actors_coordinates s') \<subseteq> insert (a, c) (set (actors_coordinates s))"
    unfolding s' by (rule update_entries)
  have old: "snd e \<noteq> c" if "e \<in> set (actors_coordinates s)" for e
  proof
    assume "snd e = c"
    then have "c \<in> snd ` set (actors_coordinates s)" using that by (metis imageI)
    then show False using free by simp
  qed
  show "fst p = fst q"
  proof (cases "p = (a, c)")
    case True
    then have "snd q = c" using eq by simp
    then have "q \<notin> set (actors_coordinates s)" using old by blast
    then have "q = (a, c)" using q sub by blast
    then show ?thesis using True by simp
  next
    case False
    then have pin: "p \<in> set (actors_coordinates s)" using p sub by blast
    then have "snd q \<noteq> c" using old eq by metis
    then have "q \<noteq> (a, c)" by auto
    then have qin: "q \<in> set (actors_coordinates s)" using q sub by blast
    from inv pin qin eq show ?thesis unfolding one_actor_per_cell_def by blast
  qed
qed

lemma one_actor_per_cell_same:
  "actors_coordinates s' = actors_coordinates s \<Longrightarrow> one_actor_per_cell s' = one_actor_per_cell s"
  by (simp add: one_actor_per_cell_def)

lemma check_flag_return_conditions_actors:
  assumes r: "check_flag_return_conditions hfr s a = Inr (t, s')"
  shows "actors_coordinates s' = actors_coordinates s"
proof -
  from r obtain c where "map_of (actors_coordinates s) a = Some c"
    by (cases "map_of (actors_coordinates s) a")
      (simp_all add: check_flag_return_conditions_def getitem_def)
  from check_flag_return_conditions_frame(1) [OF this r] show ?thesis .
qed

lemma try_put_actor_keeps:
  assumes "try_put_actor s a c = Inr (m, s')" and "one_actor_per_cell s"
  shows "one_actor_per_cell s'"
proof (cases m)
  case False
  then have "s' = s" using assms(1)
    by (auto simp: try_put_actor_def Let_def split: sum.splits if_splits)
  then show ?thesis using assms(2) by simp
next
  case True
  then have "c \<notin> snd ` set (actors_coordinates s)
      \<and> actors_coordinates s' = AList.update a c (actors_coordinates s)"
    using assms(1)
    by (auto simp: try_put_actor_def Let_def coordinates_actors_def inverse_dict_None
        split: sum.splits if_splits option.splits)
  then show ?thesis using one_actor_per_cell_update [OF assms(2)] by blast
qed

lemma move_eq:
  "calc_target_coordinates s a d = Inr c \<Longrightarrow> try_put_actor s a c = Inr (m, s1) \<Longrightarrow>
   move hfr s a d =
     (if m then (case check_flag_return_conditions hfr s1 a of
                   Inl e \<Rightarrow> Inl e
                 | Inr (t, s2) \<Rightarrow> Inr ((m, t), s2))
      else Inr ((m, None), s1))"
  by (simp add: move_def)

lemma move_keeps:
  assumes mv: "move hfr s a d = Inr (res, s')" and inv: "one_actor_per_cell s"
  shows "one_actor_per_cell s'"
proof (cases "calc_target_coordinates s a d")
  case (Inl e)
  have "move hfr s a d = Inl e" by (simp add: move_def Inl)
  then show ?thesis using mv by simp
next
  case tgt: (Inr c)
  show ?thesis
  proof (cases "try_put_actor s a c")
    case (Inl e)
    have "move hfr s a d = Inl e" by (simp add: move_def tgt Inl)
    then show ?thesis using mv by simp
  next
    case put: (Inr p)
    obtain m s1 where p: "p = (m, s1)" by (cases p)
    have put': "try_put_actor s a c = Inr (m, s1)" unfolding put p ..
    have s1: "one_actor_per_cell s1" using try_put_actor_keeps [OF put' inv] .
    note eq = move_eq [OF tgt put', of hfr]
    show ?thesis
    proof (cases m)
      case False
      have "move hfr s a d = Inr ((m, None), s1)" by (simp add: eq False)
      then have "s' = s1" using mv by simp
      then show ?thesis using s1 by simp
    next
      case True
      show ?thesis
      proof (cases "check_flag_return_conditions hfr s1 a")
        case (Inl e)
        have "move hfr s a d = Inl e" by (simp add: eq Inl True)
        then show ?thesis using mv by simp
      next
        case ret: (Inr q)
        obtain t s2 where q: "q = (t, s2)" by (cases q)
        have "move hfr s a d = Inr ((m, t), s2)" by (simp add: eq ret q True)
        then have "s' = s2" using mv by simp
        then have "check_flag_return_conditions hfr s1 a = Inr (t, s')" unfolding ret q by simp
        from check_flag_return_conditions_actors [OF this]
        have "actors_coordinates s' = actors_coordinates s1" .
        from one_actor_per_cell_same [OF this] s1 show ?thesis by blast
      qed
    qed
  qed
qed

lemma respawn_keeps:
  assumes "respawn s a k = Inr s'" and "one_actor_per_cell s"
  shows "one_actor_per_cell s'"
proof -
  from assms(1) obtain bc where
    "place_actor_in_area s a (possible_spawn_points (map_size s) bc) (forbidden_positions s) k = Inr s'"
    by (auto simp: respawn_def split: sum.splits)
  from place_actor_in_area_result [OF this]
  obtain c where "c \<notin> forbidden_positions s"
    "s' = s\<lparr>actor_flag := (actor_flag s)(a := None),
           actors_coordinates := AList.update a c (actors_coordinates s)\<rparr>"
    by blast
  then have "c \<notin> snd ` set (actors_coordinates s)"
    "actors_coordinates s' = AList.update a c (actors_coordinates s)"
    by (simp_all add: forbidden_positions_def)
  then show ?thesis using one_actor_per_cell_update [OF assms(2)] by blast
qed

lemma attack_keeps:
  assumes "attack s a d r k = Inr (res, s')" and "one_actor_per_cell s"
  shows "one_actor_per_cell s'"
proof -
  from assms(1) have "s' = s \<or> (\<exists>target. respawn s target k = Inr s')"
    by (auto simp: attack_def split: sum.splits if_splits option.splits)
  then show ?thesis using assms(2) respawn_keeps by blast
qed

lemma grabput_flag_actors:
  assumes res: "grabput_flag hfr s a d r = Inr (res, s')"
  shows "actors_coordinates s' = actors_coordinates s"
proof -
  from res obtain tgt where tgt: "calc_target_coordinates s a d = Inr tgt"
    by (cases "calc_target_coordinates s a d") (simp_all add: grabput_flag_def)
  show ?thesis
  proof (cases "actor_flag s a")
    case (Some F)
    note hold = this
    show ?thesis
    proof (cases "coordinates_actors s tgt")
      case None
      show ?thesis
      proof (cases "tgt \<in> walls_coordinates s")
        case True
        then have "s' = s" using res tgt hold None by (simp add: grabput_flag_def Let_def)
        then show ?thesis by simp
      next
        case False
        from res show ?thesis
          unfolding grabput_flag_put_free [OF tgt hold None False]
          by (auto split: sum.splits)
      qed
    next
      case (Some ta)
      show ?thesis
      proof (cases "actor_grab ta \<noteq> 0 \<and> actor_flag s ta = None")
        case False
        then have "s' = s" using res tgt hold Some
          by (auto simp: grabput_flag_def Let_def split: if_splits)
        then show ?thesis by simp
      next
        case True
        define s1 where "s1 = s\<lparr>flags_coordinates := AList.update F tgt (flags_coordinates s),
            actor_flag := ((actor_flag s)(a := None))(ta := Some F)\<rparr>"
        have "grabput_flag hfr s a d r =
            (case check_flag_return_conditions hfr s1 ta of
               Inl e \<Rightarrow> Inl e
             | Inr (t, s2) \<Rightarrow> Inr ((True, t), s2))"
          unfolding s1_def
          using tgt hold Some True by (simp add: grabput_flag_def Let_def)
        with res obtain t where "check_flag_return_conditions hfr s1 ta = Inr (t, s')"
          by (cases "check_flag_return_conditions hfr s1 ta") auto
        from check_flag_return_conditions_actors [OF this] show ?thesis
          by (simp add: s1_def)
      qed
    qed
  next
    case None
    note nohold = this
    show ?thesis
    proof (cases "coordinates_flags s tgt")
      case None
      then have "s' = s" using res tgt nohold by (simp add: grabput_flag_def Let_def)
      then show ?thesis by simp
    next
      case (Some F)
      show ?thesis
      proof (cases "r < actor_grab a")
        case False
        then have "s' = s" using res tgt nohold Some by (simp add: grabput_flag_def Let_def)
        then show ?thesis by simp
      next
        case True
        from res tgt nohold Some True obtain cur where cur: "map_of (actors_coordinates s) a = Some cur"
          by (cases "map_of (actors_coordinates s) a") (simp_all add: grabput_flag_def Let_def getitem_def)
        define s1 where "s1 = s\<lparr>flags_coordinates := AList.update F cur (flags_coordinates s),
            actor_flag := (actor_flag s)(a := Some F)\<rparr>"
        define s2 where "s2 = (case coordinates_actors s tgt of
            None \<Rightarrow> s1 | Some ta \<Rightarrow> s1\<lparr>actor_flag := (actor_flag s1)(ta := None)\<rparr>)"
        have "grabput_flag hfr s a d r =
            (case check_flag_return_conditions hfr s2 a of
               Inl e \<Rightarrow> Inl e
             | Inr (t, s3) \<Rightarrow> Inr ((True, t), s3))"
          unfolding s2_def s1_def
          using tgt nohold Some True cur
          by (simp add: grabput_flag_def Let_def getitem_def)
        with res obtain t where "check_flag_return_conditions hfr s2 a = Inr (t, s')"
          by (cases "check_flag_return_conditions hfr s2 a") auto
        from check_flag_return_conditions_actors [OF this] show ?thesis
          by (simp add: s2_def s1_def split: option.splits)
      qed
    qed
  qed
qed

text \<open>
  Claim C5. On a board where at most one actor occupies a cell, every board returned by
  a move, by an attack (with the respawn it may trigger, \<open>k\<close> being the draw of the
  respawn cell) or by a grab/put order has at most one actor per cell as well.
\<close>

theorem engine_keeps_one_actor_per_cell:
  assumes "one_actor_per_cell s"
  shows "(\<forall>res s'. move hfr s actor direction = Inr (res, s') \<longrightarrow> one_actor_per_cell s') \<and>
         (\<forall>res s'. attack s actor direction r k = Inr (res, s') \<longrightarrow> one_actor_per_cell s') \<and>
         (\<forall>res s'. grabput_flag hfr s actor direction r = Inr (res, s') \<longrightarrow> one_actor_per_cell s')"
proof (intro conjI allI impI)
  fix res s'
  assume "move hfr s actor direction = Inr (res, s')"
  then show "one_actor_per_cell s'" using assms by (rule move_keeps)
next
  fix res s'
  assume "attack s actor direction r k = Inr (res, s')"
  then show "one_actor_per_cell s'" using assms by (rule attack_keeps)
next
  fix res s'
  assume "grabput_flag hfr s actor direction r = Inr (res, s')"
  from one_actor_per_cell_same [OF grabput_flag_actors [OF this]] assms
  show "one_actor_per_cell s'" by blast
qed

text \<open>
  Claim C5 at a concrete board: \<open>actor_a\<close> stands beside \<open>actor_b\<close>. Its move to the
  left, its attack on \<open>actor_b\<close> (which respawns near its base) and its grab all return
  boards on which the two actors are on different cells.
\<close>

theorem engine_keeps_one_actor_per_cell_witness:
  "one_actor_per_cell snatch_board \<and>
   (\<exists>res s'. move True snatch_board actor_a left = Inr (res, s')
      \<and> actors_coordinates s' = [(actor_b, Coordinates 5 4), (actor_a, Coordinates 3 4)]
      \<and> one_actor_per_cell s') \<and>
   (\<exists>res s'. attack snatch_board actor_a right (1 / 2) 0 = Inr (res, s')
      \<and> actors_coordinates s' = [(actor_b, Coordinates 5 5), (actor_a, Coordinates 4 4)]
      \<and> one_actor_per_cell s') \<and>
   (\<exists>res s'. grabput_flag True snatch_board actor_a right 0 = Inr (res, s')
      \<and> actors_coordinates s' = [(actor_b, Coordinates 5 4), (actor_a, Coordinates 4 4)]
      \<and> one_actor_per_cell s')"
proof -
  have inv: "one_actor_per_cell snatch_board"
    by (simp add: one_actor_per_cell_def snatch_board_def)
  note keeps = engine_keeps_one_actor_per_cell [OF inv]
  have "\<exists>res s'. move True snatch_board actor_a left = Inr (res, s')
      \<and> actors_coordinates s' = [(actor_b, Coordinates 5 4), (actor_a, Coordinates 3 4)]"
    by (auto simp: engine_defs snatch_board_def actor_a_def actor_b_def)
  then have M: "\<exists>res s'. move True snatch_board actor_a left = Inr (res, s')
      \<and> actors_coordinates s' = [(actor_b, Coordinates 5 4), (actor_a, Coordinates 3 4)]
      \<and> one_actor_per_cell s'"
    using keeps [of True actor_a left] by blast
  have "\<exists>res s'. attack snatch_board actor_a right (1 / 2) 0 = Inr (res, s')
      \<and> actors_coordinates s' = [(actor_b, Coordinates 5 5), (actor_a, Coordinates 4 4)]"
    by (auto simp: attack_def respawn_def place_actor_in_area_def possible_spawn_points_def
        forbidden_positions_def valid_coordinates_def random_choice_def engine_defs
        snatch_board_def actor_a_def actor_b_def upto_5_9)
  then have A: "\<exists>res s'. attack snatch_board actor_a right (1 / 2) 0 = Inr (res, s')
      \<and> actors_coordinates s' = [(actor_b, Coordinates 5 5), (actor_a, Coordinates 4 4)]
      \<and> one_actor_per_cell s'"
    using keeps [of _ actor_a right "1 / 2" 0] by blast
  have "\<exists>res s'. grabput_flag True snatch_board actor_a right 0 = Inr (res, s')
      \<and> actors_coordinates s' = [(actor_b, Coordinates 5 4), (actor_a, Coordinates 4 4)]"
    by (auto simp: grabput_flag_def engine_defs snatch_board_def actor_a_def actor_b_def)
  then have G: "\<exists>res s'. grabput_flag True snatch_board actor_a right 0 = Inr (res, s')
      \<and> actors_coordinates s' = [(actor_b, Coordinates 5 4), (actor_a, Coordinates 4 4)]
      \<and> one_actor_per_cell s'"
    using keeps [of True actor_a right 0] by blast
  show ?thesis using inv M A G by blast
qed

lemma get_area_positions_iff:
  "q \<in> set (get_area_positions n c d) \<longleftrightarrow>
     coord_x c - d \<le> coord_x q \<and> coord_x q \<le> coord_x c + d - 1 \<and>
     coord_y c - d \<le> coord_y q \<and> coord_y q \<le> coord_y c + d - 1 \<and>
     valid_coordinates n (coord_x q) (coord_y q)"
  by (cases q) (auto simp: get_area_positions_def)


lemma outside_window_apart:
  assumes "q \<notin> set (get_area_positions n c d)"
    and "valid_coordinates n (coord_x q) (coord_y q)"
  shows "apart d c q"
  using assms unfolding get_area_positions_iff apart_def by linarith

lemma apart_sym: "apart d c e \<Longrightarrow> apart d e c"
  unfolding apart_def by linarith


lemma paired_update:
  "paired (AList.update (Base t) c bases) (AList.update (Flag t) c flags) u \<longleftrightarrow>
     u = t \<or> paired bases flags u"
  by (auto simp: paired_def update_conv')


lemma spaced_step:
  assumes sp: "spaced n d ts pool bases"
    and c: "c \<in> set pool"
  shows "spaced n d (ts @ [t]) (filter (\<lambda>p. p \<notin> set (get_area_positions n c d)) pool)
           (AList.update (Base t) c bases)"
proof -
  let ?pool = "filter (\<lambda>p. p \<notin> set (get_area_positions n c d)) pool"
  let ?bases = "AList.update (Base t) c bases"
  have valid: "\<forall>q\<in>set pool. valid_coordinates n (coord_x q) (coord_y q)"
    and pools: "\<And>u e q. u \<in> set ts \<Longrightarrow> map_of bases (Base u) = Some e \<Longrightarrow> q \<in> set pool \<Longrightarrow> apart d e q"
    and pairs: "\<And>u v e f. u \<in> set ts \<Longrightarrow> v \<in> set ts \<Longrightarrow> u \<noteq> v \<Longrightarrow> map_of bases (Base u) = Some e
        \<Longrightarrow> map_of bases (Base v) = Some f \<Longrightarrow> apart d e f"
    using sp unfolding spaced_def by blast+
  have new: "apart d c q" if "q \<in> set ?pool" for q
    using that valid outside_window_apart [of q n c d] by auto
  have look: "map_of ?bases (Base u) = (if u = t then Some c else map_of bases (Base u))" for u
    by (simp add: update_conv')
  have 1: "\<forall>q\<in>set ?pool. valid_coordinates n (coord_x q) (coord_y q)"
    using valid by simp
  have 2: "apart d e q"
    if "u \<in> set (ts @ [t])" "map_of ?bases (Base u) = Some e" "q \<in> set ?pool" for u e q
  proof (cases "u = t")
    case True
    then have "e = c" using that(2) by (simp add: look)
    then show ?thesis using new that(3) by simp
  next
    case False
    then have "u \<in> set ts" "map_of bases (Base u) = Some e" using that by (simp_all add: look)
    then show ?thesis using pools that(3) by simp
  qed
  have 3: "apart d e f"
    if "u \<in> set (ts @ [t])" "v \<in> set (ts @ [t])" "u \<noteq> v"
      "map_of ?bases (Base u) = Some e" "map_of ?bases (Base v) = Some f" for u v e f
  proof (cases "u = t")
    case True
    then have "v \<noteq> t" using that(3) by simp
    then have v: "v \<in> set ts" "map_of bases (Base v) = Some f"
      using that(2) that(5) look [of v] by simp_all
    have e: "e = c" using that(4) True look [of u] by simp
    have "apart d f c" using pools [OF v c] .
    then show ?thesis using e apart_sym by blast
  next
    case False
    then have u: "u \<in> set ts" "map_of bases (Base u) = Some e" using that by (simp_all add: look)
    show ?thesis
    proof (cases "v = t")
      case True
      then have "f = c" using that(5) by (simp add: look)
      then show ?thesis using pools u c by blast
    next
      case False
      then have "v \<in> set ts" "map_of bases (Base v) = Some f" using that by (simp_all add: look)
      then show ?thesis using pairs u that(3) by blast
    qed
  qed
  show ?thesis unfolding spaced_def using 1 2 3 by blast
qed

lemma spaced_no_pool: "spaced n d ts pool bases \<Longrightarrow> spaced n d ts [] bases"
  by (simp add: spaced_def)

lemma place_loop_step:
  assumes ih: "\<And>n d teams draws i k pool bases flags resets y.
      loop n d teams draws i k pool bases flags resets = Some y \<Longrightarrow>
      loop_post n d teams i pool bases flags resets y"
    and body: "(if i < length teams then
       (if pool = []
        then loop n d teams draws 0 k (interior n) bases flags (Suc resets)
        else
          loop n d teams draws (Suc i) (Suc k)
            (filter (\<lambda>p. p \<notin> set (get_area_positions n (pool ! (draws k mod length pool)) d)) pool)
            (AList.update (Base (teams ! i)) (pool ! (draws k mod length pool)) bases)
            (AList.update (Flag (teams ! i)) (pool ! (draws k mod length pool)) flags)
            resets)
     else Some (bases, flags, resets)) = Some y"
  shows "loop_post n d teams i pool bases flags resets y"
proof (cases "i < length teams")
  case False
  then have y: "y = (bases, flags, resets)" and all: "take i teams = teams"
    using body by simp_all
  show ?thesis unfolding loop_post_def y all using spaced_no_pool by auto
next
  case True
  note more = this
  show ?thesis
  proof (cases "pool = []")
    case True
    then have "loop n d teams draws 0 k (interior n) bases flags (Suc resets) = Some y"
      using body more by simp
    from ih [OF this] show ?thesis unfolding loop_post_def by auto
  next
    case False
    define c where "c = pool ! (draws k mod length pool)"
    have c: "c \<in> set pool" unfolding c_def using False by simp
    have call: "loop n d teams draws (Suc i) (Suc k)
        (filter (\<lambda>p. p \<notin> set (get_area_positions n c d)) pool)
        (AList.update (Base (teams ! i)) c bases)
        (AList.update (Flag (teams ! i)) c flags) resets = Some y"
      using body more False unfolding c_def by simp
    note post = ih [OF call, unfolded loop_post_def]
    have tk: "take (Suc i) teams = take i teams @ [teams ! i]"
      using more by (rule take_Suc_conv_app_nth)
    have p: "\<forall>t\<in>set (take (Suc i) teams).
        paired (AList.update (Base (teams ! i)) c bases) (AList.update (Flag (teams ! i)) c flags) t"
      if "\<forall>t\<in>set (take i teams). paired bases flags t"
      using that unfolding tk by (auto simp: paired_update)
    have s: "spaced n d (take (Suc i) teams)
        (filter (\<lambda>p. p \<notin> set (get_area_positions n c d)) pool)
        (AList.update (Base (teams ! i)) c bases)"
      if "spaced n d (take i teams) pool bases"
      unfolding tk using that c by (rule spaced_step)
    show ?thesis unfolding loop_post_def using post p s by blast
  qed
qed

lemma place_loop_correct:
  assumes run: "place_loop n d teams draws i k pool bases flags resets = Some y"
  shows "loop_post n d teams i pool bases flags resets y"
  by (rule place_loop.raw_induct
      [where P = "\<lambda>n d teams draws i k pool bases flags resets y.
          loop_post n d teams i pool bases flags resets y", OF _ run])
    (rule place_loop_step)


lemma minimum_distance_eq:
  assumes t: "0 < t" and k: "0 \<le> k"
    and lo: "36 * k\<^sup>2 * int t \<le> 25 * n\<^sup>2"
    and hi: "25 * n\<^sup>2 < 36 * (k + 1)\<^sup>2 * int t"
  shows "minimum_distance n t = k - 1"
proof -
  define N where "N = (real_of_int n)\<^sup>2"
  define W where "W = (real_of_int k)\<^sup>2 * real t"
  define X where "X = (real_of_int k + 1)\<^sup>2 * real t"
  let ?q = "N / real t"
  have tpos: "0 < real t" using t by simp
  from lo have "real_of_int (36 * k\<^sup>2 * int t) \<le> real_of_int (25 * n\<^sup>2)"
    by (simp only: of_int_le_iff)
  then have lo': "36 * W \<le> 25 * N" by (simp add: W_def N_def mult.assoc)
  from hi have "real_of_int (25 * n\<^sup>2) < real_of_int (36 * (k + 1)\<^sup>2 * int t)"
    by (simp only: of_int_less_iff)
  then have hi': "25 * N < 36 * X" by (simp add: X_def N_def mult.assoc)
  have sq: "(12 / 10 * y)\<^sup>2 = 36 / 25 * y\<^sup>2" for y :: real
    by (simp add: power_mult_distrib power2_eq_square)
  have "36 / 25 * (real_of_int k)\<^sup>2 * real t = 36 / 25 * W" by (simp add: W_def)
  then have "36 / 25 * (real_of_int k)\<^sup>2 * real t \<le> N" using lo' by linarith
  then have "36 / 25 * (real_of_int k)\<^sup>2 \<le> ?q"
    using tpos by (simp add: pos_le_divide_eq)
  then have "(12 / 10 * real_of_int k)\<^sup>2 \<le> ?q" by (simp only: sq)
  then have a: "12 / 10 * real_of_int k \<le> sqrt ?q" by (rule real_le_rsqrt)
  have "36 / 25 * (real_of_int k + 1)\<^sup>2 * real t = 36 / 25 * X" by (simp add: X_def)
  then have "N < 36 / 25 * (real_of_int k + 1)\<^sup>2 * real t" using hi' by linarith
  then have "?q < 36 / 25 * (real_of_int k + 1)\<^sup>2"
    using tpos by (simp add: pos_divide_less_eq)
  then have "?q < (12 / 10 * (real_of_int k + 1))\<^sup>2" by (simp only: sq)
  moreover have "0 \<le> 12 / 10 * (real_of_int k + 1)" using k by simp
  ultimately have b: "sqrt ?q < 12 / 10 * (real_of_int k + 1)" by (intro real_less_lsqrt)
  have "real_of_int k \<le> sqrt ?q / (12 / 10)" using a by (simp add: pos_le_divide_eq)
  moreover have "sqrt ?q / (12 / 10) < real_of_int k + 1" using b by (simp add: pos_divide_less_eq)
  ultimately have "\<lfloor>sqrt ?q / (12 / 10)\<rfloor> = k" by (rule floor_unique)
  then show ?thesis by (simp add: minimum_distance_def N_def)
qed


lemma minimum_distance_5_2: "minimum_distance 5 2 = 1"
  using minimum_distance_eq [of 2 2 5] by simp



lemma length_concat_map_le:
  "(\<And>x. x \<in> set xs \<Longrightarrow> length (f x) \<le> b) \<Longrightarrow> length (concat (map f xs)) \<le> length xs * b"
proof (induction xs)
  case Nil
  show ?case by simp
next
  case (Cons x xs)
  have "length (f x) \<le> b" using Cons.prems by simp
  moreover have "length (concat (map f xs)) \<le> length xs * b" using Cons by simp
  ultimately show ?case by simp
qed

lemma length_get_area_positions:
  "length (get_area_positions n c d) \<le> nat (2 * d) * nat (2 * d)"
proof -
  let ?xs = "[coord_x c - d .. coord_x c + d - 1]"
  let ?ys = "[coord_y c - d .. coord_y c + d - 1]"
  have inner: "length (concat (map (\<lambda>y. if valid_coordinates n x y then [Coordinates x y] else []) ?ys))
      \<le> length ?ys * 1" for x
    by (rule length_concat_map_le) simp
  have "length (get_area_positions n c d) \<le> length ?xs * (length ?ys * 1)"
    unfolding get_area_positions_def by (rule length_concat_map_le) (rule inner)
  moreover have "length ?xs = nat (2 * d)" "length ?ys = nat (2 * d)" by simp_all
  ultimately show ?thesis by simp
qed

lemma interior_product:
  "interior n = map (\<lambda>(i, j). Coordinates i j) (List.product [2 .. n - 3] [2 .. n - 3])"
  by (simp add: interior_def List.product_concat_map map_concat o_def)

lemma distinct_interior: "distinct (interior n)"
  unfolding interior_product
  by (simp add: distinct_map distinct_product inj_on_def split_beta prod_eq_iff)

lemma length_interior: "length (interior n) = nat (n - 4) * nat (n - 4)"
  unfolding interior_product by simp

lemma filter_keeps:
  assumes "distinct pool"
  shows "length pool \<le> length (filter (\<lambda>p. p \<notin> set W) pool) + length W"
proof -
  let ?hit = "filter (\<lambda>p. p \<in> set W) pool"
  have split: "length pool = length (filter (\<lambda>p. p \<notin> set W) pool) + length ?hit"
    using sum_length_filter_compl [of "\<lambda>p. p \<in> set W" pool] by simp
  have "distinct ?hit" using assms by simp
  then have eq: "card (set ?hit) = length ?hit" by (rule distinct_card)
  have sub: "set ?hit \<subseteq> set W" by auto
  have "card (set ?hit) \<le> card (set W)" by (rule card_mono [OF _ sub]) simp
  moreover have "card (set W) \<le> length W" by (rule card_length)
  ultimately show ?thesis using split eq by linarith
qed

lemma place_loop_fits:
  assumes "distinct pool"
    and "i = length teams \<or> (length teams - i - 1) * (nat (2 * d) * nat (2 * d)) < length pool"
    and "i \<le> length teams"
  shows "\<exists>bases' flags'.
    place_loop n d teams draws i k pool bases flags resets = Some (bases', flags', resets)"
  using assms
proof (induction "length teams - i" arbitrary: i k pool bases flags)
  case 0
  then have "\<not> i < length teams" by simp
  then show ?case by (subst place_loop.simps) simp
next
  case (Suc m)
  let ?w = "nat (2 * d) * nat (2 * d)"
  define c where "c = pool ! (draws k mod length pool)"
  define pool' where "pool' = filter (\<lambda>p. p \<notin> set (get_area_positions n c d)) pool"
  have less: "i < length teams" using Suc.hyps(2) by simp
  then have room: "(length teams - i - 1) * ?w < length pool" using Suc.prems(2) by simp
  then have ne: "pool \<noteq> []" by auto
  have keep: "length pool \<le> length pool' + ?w"
    using filter_keeps [OF Suc.prems(1), of "get_area_positions n c d"]
      length_get_area_positions [of n c d]
    unfolding pool'_def by linarith
  have m: "m = length teams - Suc i" using Suc.hyps(2) by simp
  have d': "distinct pool'" unfolding pool'_def using Suc.prems(1) by simp
  have fits: "Suc i = length teams \<or> (length teams - Suc i - 1) * ?w < length pool'"
  proof (cases "Suc i = length teams")
    case True
    then show ?thesis by simp
  next
    case False
    then have "length teams - i - 1 = Suc (length teams - Suc i - 1)" using less by simp
    then have "(length teams - i - 1) * ?w = (length teams - Suc i - 1) * ?w + ?w" by simp
    then show ?thesis using room keep by linarith
  qed
  have le: "Suc i \<le> length teams" using less by simp
  from Suc.hyps(1) [OF m d' fits le, of "Suc k"
      "AList.update (Base (teams ! i)) c bases" "AList.update (Flag (teams ! i)) c flags"]
  obtain bases' flags' where
    "place_loop n d teams draws (Suc i) (Suc k) pool'
       (AList.update (Base (teams ! i)) c bases) (AList.update (Flag (teams ! i)) c flags) resets
     = Some (bases', flags', resets)" by blast
  then have "place_loop n d teams draws i k pool bases flags resets = Some (bases', flags', resets)"
    using less ne unfolding pool'_def c_def by (subst place_loop.simps) simp
  then show ?case by blast
qed

lemma place_loop_stuck_step:
  assumes ih: "\<And>n d teams draws i k pool bases flags resets y.
      loop n d teams draws i k pool bases flags resets = Some y \<Longrightarrow>
      \<not> (n = 5 \<and> d = 1 \<and> length teams = 2 \<and>
         (i = 0 \<and> pool = [Coordinates 2 2] \<or> i = 1 \<and> pool = []))"
    and body: "(if i < length teams then
       (if pool = []
        then loop n d teams draws 0 k (interior n) bases flags (Suc resets)
        else
          loop n d teams draws (Suc i) (Suc k)
            (filter (\<lambda>p. p \<notin> set (get_area_positions n (pool ! (draws k mod length pool)) d)) pool)
            (AList.update (Base (teams ! i)) (pool ! (draws k mod length pool)) bases)
            (AList.update (Flag (teams ! i)) (pool ! (draws k mod length pool)) flags)
            resets)
     else Some (bases, flags, resets)) = Some y"
  shows "\<not> (n = 5 \<and> d = 1 \<and> length teams = 2 \<and>
         (i = 0 \<and> pool = [Coordinates 2 2] \<or> i = 1 \<and> pool = []))"
proof
  assume st: "n = 5 \<and> d = 1 \<and> length teams = 2 \<and>
         (i = 0 \<and> pool = [Coordinates 2 2] \<or> i = 1 \<and> pool = [])"
  then have n: "n = 5" and d: "d = 1" and len: "length teams = 2" by simp_all
  have int5: "interior 5 = [Coordinates 2 2]" by (simp add: interior_def)
  from st consider "i = 0" "pool = [Coordinates 2 2]" | "i = 1" "pool = []" by blast
  then show False
  proof cases
    case 1
    have "Coordinates 2 2 \<in> set (get_area_positions 5 (Coordinates 2 2) 1)"
      by (simp add: get_area_positions_iff valid_coordinates_def)
    then have "loop n d teams draws (Suc 0) (Suc k) []
        (AList.update (Base (teams ! 0)) (Coordinates 2 2) bases)
        (AList.update (Flag (teams ! 0)) (Coordinates 2 2) flags) resets = Some y"
      using body 1 n d len by simp
    from ih [OF this] show False using n d len by simp
  next
    case 2
    then have "loop n d teams draws 0 k [Coordinates 2 2] bases flags (Suc resets) = Some y"
      using body n len int5 by simp
    from ih [OF this] show False using n d len by simp
  qed
qed

lemma place_loop_stuck:
  assumes run: "place_loop n d teams draws i k pool bases flags resets = Some y"
  shows "\<not> (n = 5 \<and> d = 1 \<and> length teams = 2 \<and>
         (i = 0 \<and> pool = [Coordinates 2 2] \<or> i = 1 \<and> pool = []))"
  by (rule place_loop.raw_induct
      [where P = "\<lambda>n d teams draws i k pool bases flags resets y.
          \<not> (n = 5 \<and> d = 1 \<and> length teams = 2 \<and>
             (i = 0 \<and> pool = [Coordinates 2 2] \<or> i = 1 \<and> pool = []))", OF _ run])
    (rule place_loop_stuck_step)

lemma place_loop_5_2: "place_loop 5 1 [a, b] draws 0 0 (interior 5) bases flags 0 = None"
proof (cases "place_loop 5 1 [a, b] draws 0 0 (interior 5) bases flags 0")
  case None
  then show ?thesis .
next
  case (Some y)
  from place_loop_stuck [OF this] show ?thesis by (simp add: interior_def)
qed

text \<open>
  Claim C9 fails for two teams on a map of size 5. The interior is the one cell
  \<open>(2, 2)\<close> and the minimum distance is 1: the window of team A's base empties the pool,
  the reset puts the loop back to team A, and the loop never returns. The draws do not
  matter, the pool having one cell.
\<close>

theorem placement_loops_counterexample:
  "place_bases_and_flags 5 [''A'', ''B''] (\<lambda>_. 0) (empty_board\<lparr>map_size := 5\<rparr>) = None"
proof -
  have len: "length [''A'', ''B''] = 2" by simp
  show ?thesis
    unfolding place_bases_and_flags_def len minimum_distance_5_2
    by (simp add: place_loop_5_2)
qed

lemma capacity_nat:
  assumes teams: "teams \<noteq> []" and n: "5 \<le> n"
    and cap: "(int (length teams) - 1) * (2 * max 0 d)\<^sup>2 < (n - 4)\<^sup>2"
  shows "(length teams - 0 - 1) * (nat (2 * d) * nat (2 * d)) < length (interior n)"
proof -
  have a: "int (length teams - 0 - 1) = int (length teams) - 1"
    using teams by (cases teams) simp_all
  have w: "int (nat (2 * d) * nat (2 * d)) = (2 * max 0 d)\<^sup>2"
    by (cases "0 \<le> d") (simp_all add: power2_eq_square max_def)
  have p: "int (length (interior n)) = (n - 4)\<^sup>2"
    using n by (simp add: length_interior power2_eq_square)
  have "int ((length teams - 0 - 1) * (nat (2 * d) * nat (2 * d))) < int (length (interior n))"
    unfolding of_nat_mult [of "length teams - 0 - 1"] a w p using cap .
  then show ?thesis by (simp only: of_nat_less_iff)
qed

text \<open>
  Claim C9, amended. The placement returns for every sequence of draws, without a reset
  and with a base and a flag on one cell for every team, when the team list is not
  empty, the map size is at least 5 and the windows cannot exhaust the pool: the windows
  of all teams but the last, of \<open>(2 * minimum_distance)\<^sup>2\<close> cells each, hold fewer cells
  together than the \<open>(map_size - 4)\<^sup>2\<close> cells of the interior.
\<close>

theorem placement_terminates:
  assumes "teams \<noteq> []" and "5 \<le> n"
    and "(int (length teams) - 1) * (2 * max 0 (minimum_distance n (length teams)))\<^sup>2
           < (n - 4)\<^sup>2"
  shows "\<exists>s'. place_bases_and_flags n teams draws s = Some (Inr (s', 0)) \<and>
     (\<forall>t\<in>set teams. \<exists>c. map_of (bases_coordinates s') (Base t) = Some c
         \<and> map_of (flags_coordinates s') (Flag t) = Some c)"
proof -
  let ?d = "minimum_distance n (length teams)"
  have fit: "0 = length teams
      \<or> (length teams - 0 - 1) * (nat (2 * ?d) * nat (2 * ?d)) < length (interior n)"
    using capacity_nat [OF assms] by simp
  have "\<exists>bases flags.
      place_loop n ?d teams draws 0 0 (interior n) (bases_coordinates s) (flags_coordinates s) 0
        = Some (bases, flags, 0)"
    by (rule place_loop_fits [OF distinct_interior fit]) simp
  then obtain bases flags where
    run: "place_loop n ?d teams draws 0 0 (interior n) (bases_coordinates s) (flags_coordinates s) 0
        = Some (bases, flags, 0)" by blast
  let ?s' = "s\<lparr>bases_coordinates := bases, flags_coordinates := flags\<rparr>"
  have ret: "place_bases_and_flags n teams draws s = Some (Inr (?s', 0))"
    using assms(1) run by (simp add: place_bases_and_flags_def)
  have pairs: "\<forall>t\<in>set teams. paired bases flags t"
    using place_loop_correct [OF run, unfolded loop_post_def] by simp
  have "\<exists>c. map_of (bases_coordinates ?s') (Base t) = Some c
      \<and> map_of (flags_coordinates ?s') (Flag t) = Some c" if "t \<in> set teams" for t
  proof -
    have p: "paired bases flags t" using pairs that by simp
    then obtain c where b: "map_of bases (Base t) = Some c" unfolding paired_def by blast
    then have "map_of flags (Flag t) = Some c" using p unfolding paired_def by simp
    then show ?thesis using b by simp
  qed
  then show ?thesis using ret by blast
qed

lemma minimum_distance_10_8: "minimum_distance 10 8 = 1"
  using minimum_distance_eq [of 8 2 10] by simp

text \<open>
  Claim C9, amended, at a concrete input: eight teams on a map of size 10. The minimum
  distance is 1, and seven windows of 4 cells leave one of the 36 cells of the interior
  at least, so the placement returns without a reset.
\<close>

theorem placement_terminates_witness:
  "minimum_distance 10 8 = 1 \<and>
   (\<exists>s'. place_bases_and_flags 10
        [''A'', ''B'', ''C'', ''D'', ''E'', ''F'', ''G'', ''H''] (\<lambda>_. 0) empty_board
      = Some (Inr (s', 0)))"
proof -
  let ?ts = "[''A'', ''B'', ''C'', ''D'', ''E'', ''F'', ''G'', ''H'']"
  have len: "length ?ts = 8" by simp
  have ne: "?ts \<noteq> []" by simp
  have size: "(5::int) \<le> 10" by simp
  have cap: "(int (length ?ts) - 1) * (2 * max 0 (minimum_distance 10 (length ?ts)))\<^sup>2
      < (10 - 4)\<^sup>2"
    unfolding len minimum_distance_10_8 by simp
  have "\<exists>s'. place_bases_and_flags 10 ?ts (\<lambda>_. 0) empty_board = Some (Inr (s', 0)) \<and>
     (\<forall>t\<in>set ?ts. \<exists>c. map_of (bases_coordinates s') (Base t) = Some c
         \<and> map_of (flags_coordinates s') (Flag t) = Some c)"
    by (rule placement_terminates [OF ne size cap])
  then show ?thesis using minimum_distance_10_8 by blast
qed

end
